theory Spec2Isabelle
  imports Complex_Main
begin

section \<open>Number model\<close>

text \<open>
  The values of the C++ type \<^verbatim>\<open>float\<close> are modelled by \<^typ>\<open>real\<close>. In the sweeps,
  the update of the unknowns and the boundary code the arithmetic is exact: there is no
  rounding, no infinity and no NaN, and where the source divides by a value that can be
  zero and the outcome matters, the zero case is written out. In the checkpoint schedule
  of the constructor, where a sum is accumulated and compared with a closed formula, every
  operation is rounded to single precision as the machine does (\<open>float32\<close> below).
  Grid sizes and loop indices (C++ \<^verbatim>\<open>int\<close>, never negative in the loops below) are
  \<^typ>\<open>nat\<close>; block indices, which use \<open>-1\<close> for "no neighbour", are \<^typ>\<open>int\<close>.
\<close>

text \<open>Rounding to the nearest integer, a tie to the even one.\<close>

definition roundEven :: "real \<Rightarrow> int" where
  "roundEven y =
     (let f = \<lfloor>y\<rfloor>; r = y - of_int f
      in if r < 1 / 2 then f else if 1 / 2 < r then f + 1 else if even f then f else f + 1)"

text \<open>
  The binary exponent of a single-precision number of magnitude \<open>a\<close>: the largest \<open>e\<close>
  with \<open>2 ^ e \<le> a\<close>, kept between \<open>-126\<close> (the exponent of the subnormal numbers and of
  zero) and \<open>127\<close>. It is searched upwards from \<open>0\<close> for \<open>a \<ge> 1\<close> and downwards from
  \<open>-1\<close> otherwise.
\<close>

fun expUp :: "nat \<Rightarrow> int \<Rightarrow> real \<Rightarrow> int" where
  "expUp 0 e a = e"
| "expUp (Suc n) e a = (if 2 powi (e + 1) \<le> a then expUp n (e + 1) a else e)"

fun expDown :: "nat \<Rightarrow> int \<Rightarrow> real \<Rightarrow> int" where
  "expDown 0 e a = e"
| "expDown (Suc n) e a = (if 2 powi e \<le> a then e else expDown n (e - 1) a)"

definition binade :: "real \<Rightarrow> int" where
  "binade a = (if 1 \<le> a then expUp 127 0 a else expDown 125 (- 1) a)"

text \<open>
  IEEE 754 single precision, round to nearest, ties to even: the result of a float
  operation whose exact value is \<open>x\<close>. The value is rounded to a multiple of
  \<open>2 ^ (e - 23)\<close>, which keeps 24 significant bits. An exact value that single precision
  rounds to infinity gives a result of magnitude \<open>2 ^ 128\<close> or more here; the code that
  uses \<open>float32\<close> tests for it.
\<close>

definition float32 :: "real \<Rightarrow> real" where
  "float32 x = (let q = 2 powi (binade \<bar>x\<bar> - 23) in of_int (roundEven (x / q)) * q)"

section \<open>Grid buffers (Float2DNative)\<close>

text \<open>
  Modelled from the spec: \<^verbatim>\<open>tools/Float2DNative.hh\<close> is not among the sources.
  By section 4.1 of the specification a field is stored column-major: the element
  \<open>(x, y)\<close> of a field with \<open>rows\<close> entries per column is at linear offset
  \<open>x * rows + y\<close>, the constructor allocates \<open>cols * rows\<close> zeros, and the raw
  pointer gives the backing storage.
\<close>

record Float2D =
  cols :: nat
  rows :: nat
  elem :: "real list"

definition Float2D_new :: "nat \<Rightarrow> nat \<Rightarrow> Float2D" where
  "Float2D_new c r = \<lparr>cols = c, rows = r, elem = replicate (c * r) 0\<rparr>"

text \<open>\<^verbatim>\<open>f[x][y]\<close> as an rvalue.\<close>

definition elemAt :: "Float2D \<Rightarrow> nat \<Rightarrow> nat \<Rightarrow> real" where
  "elemAt f x y = elem f ! (x * rows f + y)"

text \<open>\<^verbatim>\<open>f[x][y] = v\<close>.\<close>

definition elemSet :: "Float2D \<Rightarrow> nat \<Rightarrow> nat \<Rightarrow> real \<Rightarrow> Float2D" where
  "elemSet f x y v = f\<lparr>elem := (elem f)[x * rows f + y := v]\<rparr>"


text \<open>A field of the given dimensions whose storage has the allocated length.\<close>

definition grid_ok :: "nat \<Rightarrow> nat \<Rightarrow> Float2D \<Rightarrow> bool" where
  "grid_ok c r f = (cols f = c \<and> rows f = r \<and> length (elem f) = c * r)"

section \<open>Block state\<close>

text \<open>
  Modelled from the spec: \<^verbatim>\<open>types/Boundary.hh\<close> is not among the sources. The four
  edges and the four boundary types are those of section 3 of the specification;
  \<open>UNKNOWN_TYPE\<close> stands for any other value of the C++ enum, which the switches of
  \<^verbatim>\<open>applyBoundaryConditions\<close> send to their \<^verbatim>\<open>default: assert(false)\<close> branch.
\<close>

datatype Boundary = BND_LEFT | BND_RIGHT | BND_BOTTOM | BND_TOP

datatype BoundaryType = OUTFLOW | WALL | CONNECT | PASSIVE | UNKNOWN_TYPE

text \<open>
  Every way the modelled code stops without a result: a failed \<^verbatim>\<open>assert\<close>
  (assertions are compiled in, as in a debug build), a time step that is not a finite
  number, \<^verbatim>\<open>new float[n]\<close> with negative \<open>n\<close>, a write past the end of an
  allocated array, and a checkpoint schedule with an infinite entry.
\<close>

datatype error =
  AssertionFailed | NonFiniteTimestep | BadArrayNewLength | OutOfBounds | NonFiniteSchedule

text \<open>
  The members of \<^verbatim>\<open>SWE_Block<Float2DNative>\<close> and of
  \<^verbatim>\<open>SWE_DimensionalSplittingCharm\<close>. The clocks and accumulated compute times are
  left out: no modelled result depends on them. \<open>written\<close> is the output of the
  NetCDF writer (not among the sources): one entry \<open>(h, hu, hv, t)\<close> per call of
  \<^verbatim>\<open>writer->writeTimeStep\<close>, oldest first.
\<close>

record block =
  nx :: nat
  ny :: nat
  dx :: real
  dy :: real
  originX :: real
  originY :: real
  maxTimestep :: real
  h :: Float2D
  hu :: Float2D
  hv :: Float2D
  b :: Float2D
  boundaryType :: "Boundary \<Rightarrow> BoundaryType"
  hNetUpdatesLeft :: Float2D
  hNetUpdatesRight :: Float2D
  huNetUpdatesLeft :: Float2D
  huNetUpdatesRight :: Float2D
  hNetUpdatesBelow :: Float2D
  hNetUpdatesAbove :: Float2D
  hvNetUpdatesBelow :: Float2D
  hvNetUpdatesAbove :: Float2D
  neighbourIndex :: "Boundary \<Rightarrow> int"
  checkpointInstantOfTime :: "real list"
  currentSimulationTime :: real
  currentCheckpoint :: int
  written :: "(Float2D \<times> Float2D \<times> Float2D \<times> real) list"

text \<open>
  The allocation sizes of the two constructors, and positive cell sizes: the state on
  which every array access of the loops below is in range. The constructor establishes
  it and the operations of a time step keep it (\<open>wf_construct\<close>, \<open>wf_preserved\<close>).
\<close>

definition wf_block :: "block \<Rightarrow> bool" where
  "wf_block s =
     (grid_ok (nx s + 2) (ny s + 2) (h s) \<and> grid_ok (nx s + 2) (ny s + 2) (hu s) \<and>
      grid_ok (nx s + 2) (ny s + 2) (hv s) \<and> grid_ok (nx s + 2) (ny s + 2) (b s) \<and>
      grid_ok (nx s + 2) (ny s + 2) (hNetUpdatesLeft s) \<and>
      grid_ok (nx s + 2) (ny s + 2) (hNetUpdatesRight s) \<and>
      grid_ok (nx s + 2) (ny s + 2) (huNetUpdatesLeft s) \<and>
      grid_ok (nx s + 2) (ny s + 2) (huNetUpdatesRight s) \<and>
      grid_ok (nx s + 1) (ny s + 2) (hNetUpdatesBelow s) \<and>
      grid_ok (nx s + 1) (ny s + 2) (hNetUpdatesAbove s) \<and>
      grid_ok (nx s + 1) (ny s + 2) (hvNetUpdatesBelow s) \<and>
      grid_ok (nx s + 1) (ny s + 2) (hvNetUpdatesAbove s) \<and>
      0 < dx s \<and> 0 < dy s)"

text \<open>Sequencing of steps that can stop with an error.\<close>

definition andThen :: "error + 'a \<Rightarrow> ('a \<Rightarrow> error + 'b) \<Rightarrow> error + 'b" where
  "andThen r f = (case r of Inl e \<Rightarrow> Inl e | Inr v \<Rightarrow> f v)"

section \<open>SWE\_Block::applyBoundaryConditions\<close>

text \<open>
  One definition per \<^verbatim>\<open>switch\<close> of the source, in the source's order, each loop
  \<^verbatim>\<open>for (j = 1; j <= ny; j++)\<close> a fold over \<open>[1..<ny + 1]\<close> whose body
  takes the block \<open>t\<close> of the iteration; \<open>nx\<close> and \<open>ny\<close>, which no loop body
  assigns, are read from the block \<open>s\<close> at entry. Then the four corner assignments.
\<close>

definition leftBoundary :: "block \<Rightarrow> error + block" where
  "leftBoundary s =
     (case boundaryType s BND_LEFT of
        WALL \<Rightarrow> Inr (fold (\<lambda>j t. t\<lparr>h := elemSet (h t) 0 j (elemAt (h t) 1 j),
                                  hu := elemSet (hu t) 0 j (- elemAt (hu t) 1 j),
                                  hv := elemSet (hv t) 0 j (elemAt (hv t) 1 j)\<rparr>)
                     [1..<ny s + 1] s)
      | OUTFLOW \<Rightarrow> Inr (fold (\<lambda>j t. t\<lparr>h := elemSet (h t) 0 j (elemAt (h t) 1 j),
                                     hu := elemSet (hu t) 0 j (elemAt (hu t) 1 j),
                                     hv := elemSet (hv t) 0 j (elemAt (hv t) 1 j)\<rparr>)
                        [1..<ny s + 1] s)
      | CONNECT \<Rightarrow> Inr s
      | PASSIVE \<Rightarrow> Inr s
      | UNKNOWN_TYPE \<Rightarrow> Inl AssertionFailed)"

definition rightBoundary :: "block \<Rightarrow> error + block" where
  "rightBoundary s =
     (case boundaryType s BND_RIGHT of
        WALL \<Rightarrow> Inr (fold (\<lambda>j t. t\<lparr>h := elemSet (h t) (nx s + 1) j (elemAt (h t) (nx s) j),
                                  hu := elemSet (hu t) (nx s + 1) j (- elemAt (hu t) (nx s) j),
                                  hv := elemSet (hv t) (nx s + 1) j (elemAt (hv t) (nx s) j)\<rparr>)
                     [1..<ny s + 1] s)
      | OUTFLOW \<Rightarrow> Inr (fold (\<lambda>j t. t\<lparr>h := elemSet (h t) (nx s + 1) j (elemAt (h t) (nx s) j),
                                     hu := elemSet (hu t) (nx s + 1) j (elemAt (hu t) (nx s) j),
                                     hv := elemSet (hv t) (nx s + 1) j (elemAt (hv t) (nx s) j)\<rparr>)
                        [1..<ny s + 1] s)
      | CONNECT \<Rightarrow> Inr s
      | PASSIVE \<Rightarrow> Inr s
      | UNKNOWN_TYPE \<Rightarrow> Inl AssertionFailed)"

definition bottomBoundary :: "block \<Rightarrow> error + block" where
  "bottomBoundary s =
     (case boundaryType s BND_BOTTOM of
        WALL \<Rightarrow> Inr (fold (\<lambda>i t. t\<lparr>h := elemSet (h t) i 0 (elemAt (h t) i 1),
                                  hu := elemSet (hu t) i 0 (elemAt (hu t) i 1),
                                  hv := elemSet (hv t) i 0 (- elemAt (hv t) i 1)\<rparr>)
                     [1..<nx s + 1] s)
      | OUTFLOW \<Rightarrow> Inr (fold (\<lambda>i t. t\<lparr>h := elemSet (h t) i 0 (elemAt (h t) i 1),
                                     hu := elemSet (hu t) i 0 (elemAt (hu t) i 1),
                                     hv := elemSet (hv t) i 0 (elemAt (hv t) i 1)\<rparr>)
                        [1..<nx s + 1] s)
      | CONNECT \<Rightarrow> Inr s
      | PASSIVE \<Rightarrow> Inr s
      | UNKNOWN_TYPE \<Rightarrow> Inl AssertionFailed)"

definition topBoundary :: "block \<Rightarrow> error + block" where
  "topBoundary s =
     (case boundaryType s BND_TOP of
        WALL \<Rightarrow> Inr (fold (\<lambda>i t. t\<lparr>h := elemSet (h t) i (ny s + 1) (elemAt (h t) i (ny s)),
                                  hu := elemSet (hu t) i (ny s + 1) (elemAt (hu t) i (ny s)),
                                  hv := elemSet (hv t) i (ny s + 1) (- elemAt (hv t) i (ny s))\<rparr>)
                     [1..<nx s + 1] s)
      | OUTFLOW \<Rightarrow> Inr (fold (\<lambda>i t. t\<lparr>h := elemSet (h t) i (ny s + 1) (elemAt (h t) i (ny s)),
                                     hu := elemSet (hu t) i (ny s + 1) (elemAt (hu t) i (ny s)),
                                     hv := elemSet (hv t) i (ny s + 1) (elemAt (hv t) i (ny s))\<rparr>)
                        [1..<nx s + 1] s)
      | CONNECT \<Rightarrow> Inr s
      | PASSIVE \<Rightarrow> Inr s
      | UNKNOWN_TYPE \<Rightarrow> Inl AssertionFailed)"

text \<open>\<^verbatim>\<open>h[gx][gy] = h[ix][iy]; hu[gx][gy] = hu[ix][iy]; hv[gx][gy] = hv[ix][iy];\<close>\<close>

definition cornerGhost :: "nat \<Rightarrow> nat \<Rightarrow> nat \<Rightarrow> nat \<Rightarrow> block \<Rightarrow> block" where
  "cornerGhost gx gy ix iy s =
     s\<lparr>h := elemSet (h s) gx gy (elemAt (h s) ix iy),
       hu := elemSet (hu s) gx gy (elemAt (hu s) ix iy),
       hv := elemSet (hv s) gx gy (elemAt (hv s) ix iy)\<rparr>"

definition cornerGhosts :: "block \<Rightarrow> block" where
  "cornerGhosts s =
     cornerGhost (nx s + 1) (ny s + 1) (nx s) (ny s)
       (cornerGhost (nx s + 1) 0 (nx s) 1
         (cornerGhost 0 (ny s + 1) 1 (ny s)
           (cornerGhost 0 0 1 1 s)))"

definition applyBoundaryConditions :: "block \<Rightarrow> error + block" where
  "applyBoundaryConditions s =
     andThen (leftBoundary s) (\<lambda>s1.
     andThen (rightBoundary s1) (\<lambda>s2.
     andThen (bottomBoundary s2) (\<lambda>s3.
     andThen (topBoundary s3) (\<lambda>s4.
     Inr (cornerGhosts s4)))))"

text \<open>\<^verbatim>\<open>setGhostLayer\<close> of the derived class only calls it.\<close>

definition setGhostLayer :: "block \<Rightarrow> error + block" where
  "setGhostLayer s = applyBoundaryConditions s"

section \<open>SWE\_Block::applyBoundaryBathymetry\<close>

text \<open>
  \<^verbatim>\<open>memcpy(b[0], b[1], sizeof(float) * (ny + 2))\<close> copies the \<open>ny + 2\<close> entries of
  column 1 to column 0; it is modelled element by element, as the two loops of the
  source are.
\<close>

definition applyBoundaryBathymetry :: "block \<Rightarrow> block" where
  "applyBoundaryBathymetry s =
     (let s1 = (if boundaryType s BND_LEFT = OUTFLOW \<or> boundaryType s BND_LEFT = WALL
                then fold (\<lambda>j t. t\<lparr>b := elemSet (b t) 0 j (elemAt (b t) 1 j)\<rparr>) [0..<ny s + 2] s
                else s);
          s2 = (if boundaryType s BND_RIGHT = OUTFLOW \<or> boundaryType s BND_RIGHT = WALL
                then fold (\<lambda>j t. t\<lparr>b := elemSet (b t) (nx s + 1) j (elemAt (b t) (nx s) j)\<rparr>)
                       [0..<ny s + 2] s1
                else s1);
          s3 = (if boundaryType s BND_BOTTOM = OUTFLOW \<or> boundaryType s BND_BOTTOM = WALL
                then fold (\<lambda>i t. t\<lparr>b := elemSet (b t) i 0 (elemAt (b t) i 1)\<rparr>) [0..<nx s + 2] s2
                else s2);
          s4 = (if boundaryType s BND_TOP = OUTFLOW \<or> boundaryType s BND_TOP = WALL
                then fold (\<lambda>i t. t\<lparr>b := elemSet (b t) i (ny s + 1) (elemAt (b t) i (ny s))\<rparr>)
                       [0..<nx s + 2] s3
                else s3);
          s5 = s4\<lparr>b := elemSet (b s4) 0 0 (elemAt (b s4) 1 1)\<rparr>;
          s6 = s5\<lparr>b := elemSet (b s5) 0 (ny s + 1) (elemAt (b s5) 1 (ny s))\<rparr>;
          s7 = s6\<lparr>b := elemSet (b s6) (nx s + 1) 0 (elemAt (b s6) (nx s) 1)\<rparr>
      in s7\<lparr>b := elemSet (b s7) (nx s + 1) (ny s + 1) (elemAt (b s7) (nx s) (ny s))\<rparr>)"

section \<open>SWE\_Block::initScenario\<close>

text \<open>
  The scenario classes are not among the sources; a scenario is taken as its four
  functions of \<open>(x, y)\<close>.
\<close>

record scenario =
  getBathymetry :: "real \<Rightarrow> real \<Rightarrow> real"
  getWaterHeight :: "real \<Rightarrow> real \<Rightarrow> real"
  getVeloc_u :: "real \<Rightarrow> real \<Rightarrow> real"
  getVeloc_v :: "real \<Rightarrow> real \<Rightarrow> real"

text \<open>The body of the inner loop, for the cell \<open>[j][i]\<close>.\<close>

definition initCell :: "scenario \<Rightarrow> block \<Rightarrow> nat \<Rightarrow> nat \<Rightarrow> block \<Rightarrow> block" where
  "initCell sc s i j t =
     (let x = originX s + (real j - 0.5) * dx s;
          y = originY s + (real i - 0.5) * dy s;
          t1 = t\<lparr>b := elemSet (b t) j i (getBathymetry sc x y)\<rparr>;
          t2 = t1\<lparr>h := elemSet (h t1) j i (getWaterHeight sc x y)\<rparr>;
          t3 = t2\<lparr>hu := elemSet (hu t2) j i (getVeloc_u sc x y * elemAt (h t2) j i)\<rparr>
      in t3\<lparr>hv := elemSet (hv t3) j i (getVeloc_v sc x y * elemAt (h t3) j i)\<rparr>)"

definition initScenario :: "scenario \<Rightarrow> (Boundary \<Rightarrow> BoundaryType) \<Rightarrow> block \<Rightarrow> error + block" where
  "initScenario sc boundaries s =
     (let s1 = fold (\<lambda>i. fold (\<lambda>j. initCell sc s i j) [1..<nx s + 1]) [1..<ny s + 1] s;
          s2 = s1\<lparr>boundaryType := boundaries\<rparr>
      in andThen (applyBoundaryConditions s2) (\<lambda>s3. Inr (applyBoundaryBathymetry s3)))"

section \<open>computeNumericalFluxes\<close>

text \<open>
  Modelled from the spec: the Riemann solver \<^verbatim>\<open>solvers/Hybrid.hpp\<close> is not among the
  sources. By sections 4.3 and 6 of the specification it is a pure function of
  \<open>(hL, hR, huL, huR, bL, bR)\<close> that produces the left- and right-going updates of the
  height and of the momentum and a wave speed, and \<^verbatim>\<open>computeNetUpdates\<close> replaces its
  last argument \<open>maxWaveSpeed\<close> by the maximum of it and that wave speed. The pure
  function is a parameter of the model.
\<close>

record netUpdates =
  hUpdateLeft :: real
  hUpdateRight :: real
  huUpdateLeft :: real
  huUpdateRight :: real
  waveSpeed :: real

type_synonym riemann = "real \<Rightarrow> real \<Rightarrow> real \<Rightarrow> real \<Rightarrow> real \<Rightarrow> real \<Rightarrow> netUpdates"

text \<open>The updates of one cell pair, and the new value of \<open>maxWaveSpeed\<close>.\<close>

definition computeNetUpdates ::
  "riemann \<Rightarrow> real \<Rightarrow> real \<Rightarrow> real \<Rightarrow> real \<Rightarrow> real \<Rightarrow> real \<Rightarrow> real \<Rightarrow> netUpdates \<times> real" where
  "computeNetUpdates rs hL hR huL huR bL bR maxWaveSpeed =
     (rs hL hR huL huR bL bR, max maxWaveSpeed (waveSpeed (rs hL hR huL huR bL bR)))"

text \<open>
  What a sweep carries from one iteration to the next: the block, the reduction variable
  of the sweep, and the pairs \<open>(x, y)\<close> at which \<^verbatim>\<open>solver.computeNetUpdates\<close> has been
  called so far (oldest first; a record of the calls, not a variable of the source).
\<close>

type_synonym sweepState = "block \<times> real \<times> (nat \<times> nat) list"

text \<open>The solver applied to the cells \<open>(x, y)\<close> and \<open>(x + 1, y)\<close> of the block.\<close>

definition xSolve :: "riemann \<Rightarrow> block \<Rightarrow> nat \<Rightarrow> nat \<Rightarrow> real \<Rightarrow> netUpdates \<times> real" where
  "xSolve rs t x y w =
     computeNetUpdates rs (elemAt (h t) x y) (elemAt (h t) (x + 1) y)
       (elemAt (hu t) x y) (elemAt (hu t) (x + 1) y)
       (elemAt (b t) x y) (elemAt (b t) (x + 1) y) w"

definition xSweepCell :: "riemann \<Rightarrow> nat \<Rightarrow> nat \<Rightarrow> sweepState \<Rightarrow> sweepState" where
  "xSweepCell rs x y st =
     (case st of (t, maxHorizontalWaveSpeed, calls) \<Rightarrow>
        case xSolve rs t x y maxHorizontalWaveSpeed of (u, w) \<Rightarrow>
           (t\<lparr>hNetUpdatesLeft := elemSet (hNetUpdatesLeft t) x y (hUpdateLeft u),
              hNetUpdatesRight := elemSet (hNetUpdatesRight t) (x + 1) y (hUpdateRight u),
              huNetUpdatesLeft := elemSet (huNetUpdatesLeft t) x y (huUpdateLeft u),
              huNetUpdatesRight := elemSet (huNetUpdatesRight t) (x + 1) y (huUpdateRight u)\<rparr>,
            w, calls @ [(x, y)]))"

text \<open>The solver applied to the cells \<open>(x, y)\<close> and \<open>(x, y + 1)\<close>, with \<open>hv\<close> as momentum.\<close>

definition ySolve :: "riemann \<Rightarrow> block \<Rightarrow> nat \<Rightarrow> nat \<Rightarrow> real \<Rightarrow> netUpdates \<times> real" where
  "ySolve rs t x y w =
     computeNetUpdates rs (elemAt (h t) x y) (elemAt (h t) x (y + 1))
       (elemAt (hv t) x y) (elemAt (hv t) x (y + 1))
       (elemAt (b t) x y) (elemAt (b t) x (y + 1)) w"

definition ySweepCell :: "riemann \<Rightarrow> nat \<Rightarrow> nat \<Rightarrow> sweepState \<Rightarrow> sweepState" where
  "ySweepCell rs x y st =
     (case st of (t, maxVerticalWaveSpeed, calls) \<Rightarrow>
        case ySolve rs t x y maxVerticalWaveSpeed of (u, w) \<Rightarrow>
           (t\<lparr>hNetUpdatesBelow := elemSet (hNetUpdatesBelow t) x y (hUpdateLeft u),
              hNetUpdatesAbove := elemSet (hNetUpdatesAbove t) x (y + 1) (hUpdateRight u),
              hvNetUpdatesBelow := elemSet (hvNetUpdatesBelow t) x y (huUpdateLeft u),
              hvNetUpdatesAbove := elemSet (hvNetUpdatesAbove t) x (y + 1) (huUpdateRight u)\<rparr>,
            w, calls @ [(x, y)]))"

text \<open>
  The two loop nests, run in the order the source writes them: the iterations of an
  \<^verbatim>\<open>omp for\<close> write disjoint cells, and the \<^verbatim>\<open>reduction(max : ...)\<close> clause combines
  the threads' maxima with the initial value \<open>0\<close>, which is what the sequential loop
  starting from \<open>0\<close> computes.
\<close>

definition xSweep :: "riemann \<Rightarrow> block \<Rightarrow> sweepState" where
  "xSweep rs s =
     fold (\<lambda>x. fold (\<lambda>y. xSweepCell rs x y) [1..<ny s + 1]) [0..<nx s + 1] (s, 0, [])"

definition ySweep :: "riemann \<Rightarrow> block \<Rightarrow> sweepState" where
  "ySweep rs s =
     fold (\<lambda>x. fold (\<lambda>y. ySweepCell rs x y) [0..<ny s + 1]) [1..<nx s + 1] (s, 0, [])"

text \<open>
  The assertion \<^verbatim>\<open>maxTimestep < .5 * (dy / maxVerticalWaveSpeed)\<close>. With a vertical
  wave speed of zero the float quotient is \<open>+\<infinity>\<close> for positive \<open>dy\<close> (the assertion
  holds), and \<open>-\<infinity>\<close> or NaN otherwise (it fails); real division would give \<open>0\<close>, so
  that case is written out.
\<close>

definition cflHolds :: "real \<Rightarrow> real \<Rightarrow> real \<Rightarrow> bool" where
  "cflHolds mt dy' maxVerticalWaveSpeed =
     (if maxVerticalWaveSpeed = 0 then 0 < dy' else mt < 0.5 * (dy' / maxVerticalWaveSpeed))"

text \<open>
  With both wave speeds zero the quotients \<^verbatim>\<open>dx / maxWaveSpeed\<close> and
  \<^verbatim>\<open>dy / maxWaveSpeed\<close> are infinite or NaN: no real number is stored, and the model
  stops with \<open>NonFiniteTimestep\<close> (for positive cell sizes the C++ assertion that follows
  compares \<open>+\<infinity>\<close> with \<open>+\<infinity>\<close> and fails). The contribution to the reduction over the other
  blocks (Charm++) is outside the model; its callback is \<open>reduceWaveSpeed\<close>.
\<close>

definition computeNumericalFluxes :: "riemann \<Rightarrow> block \<Rightarrow> error + block" where
  "computeNumericalFluxes rs s =
     (case xSweep rs s of (s1, maxHorizontalWaveSpeed, callsX) \<Rightarrow>
      case ySweep rs s1 of (s2, maxVerticalWaveSpeed, callsY) \<Rightarrow>
        let maxWaveSpeed = max maxHorizontalWaveSpeed maxVerticalWaveSpeed
        in if maxWaveSpeed = 0 then Inl NonFiniteTimestep
           else let mt = min (dx s2 / maxWaveSpeed) (dy s2 / maxWaveSpeed) * 0.4
                in if cflHolds mt (dy s2) maxVerticalWaveSpeed
                   then Inr (s2\<lparr>maxTimestep := mt\<rparr>)
                   else Inl AssertionFailed)"

definition reduceWaveSpeed :: "real \<Rightarrow> block \<Rightarrow> block" where
  "reduceWaveSpeed maxWaveSpeed s = s\<lparr>maxTimestep := maxWaveSpeed\<rparr>"

section \<open>updateUnknowns\<close>

text \<open>The three assignments of the loop body, for the cell \<open>[x][y]\<close>.\<close>

definition updateCell :: "real \<Rightarrow> block \<Rightarrow> nat \<Rightarrow> nat \<Rightarrow> block \<Rightarrow> block" where
  "updateCell dt s x y t =
     t\<lparr>h := elemSet (h t) x y
              (elemAt (h t) x y -
                ((dt / dx s) * (elemAt (hNetUpdatesRight t) x y + elemAt (hNetUpdatesLeft t) x y) +
                 (dt / dy s) * (elemAt (hNetUpdatesAbove t) x y + elemAt (hNetUpdatesBelow t) x y))),
       hu := elemSet (hu t) x y
               (elemAt (hu t) x y -
                 (dt / dx s) * (elemAt (huNetUpdatesRight t) x y + elemAt (huNetUpdatesLeft t) x y)),
       hv := elemSet (hv t) x y
               (elemAt (hv t) x y -
                 (dt / dy s) * (elemAt (hvNetUpdatesAbove t) x y + elemAt (hvNetUpdatesBelow t) x y))\<rparr>"

definition updateLoop :: "real \<Rightarrow> block \<Rightarrow> block" where
  "updateLoop dt s = fold (\<lambda>x. fold (\<lambda>y. updateCell dt s x y) [1..<ny s + 1]) [1..<nx s + 1] s"

definition updateUnknowns :: "real \<Rightarrow> block \<Rightarrow> error + block" where
  "updateUnknowns dt s =
     (if \<bar>dt - maxTimestep s\<bar> < 0.00001 then Inr (updateLoop dt s) else Inl AssertionFailed)"

section \<open>Copy layers\<close>

text \<open>
  The message class \<^verbatim>\<open>copyLayer\<close>. Its four arrays are allocated with the sizes
  \<open>{0 or n, n, n, n}\<close> given to \<^verbatim>\<open>new\<close>, for \<open>b, h, hu, hv\<close> in this order: the
  bathymetry array has length zero unless bathymetry is sent.
\<close>

record copyLayer =
  boundary :: Boundary
  containsBathymetry :: bool
  layer_b :: "real list"
  layer_h :: "real list"
  layer_hu :: "real list"
  layer_hv :: "real list"

text \<open>
  A message whose arrays hold the \<open>n\<close> values the receiver reads (and \<open>n\<close> bathymetry
  values when it says it contains bathymetry). \<open>processCopyLayer\<close> does not check this;
  reading a shorter array is undefined in C++ and unspecified in the model.
\<close>

definition layer_fits :: "nat \<Rightarrow> copyLayer \<Rightarrow> bool" where
  "layer_fits n msg =
     (length (layer_h msg) = n \<and> length (layer_hu msg) = n \<and> length (layer_hv msg) = n \<and>
      length (layer_b msg) = (if containsBathymetry msg then n else 0))"

definition processCopyLayer :: "copyLayer \<Rightarrow> block \<Rightarrow> block" where
  "processCopyLayer msg s =
     (if boundary msg = BND_RIGHT \<and> boundaryType s BND_LEFT = CONNECT then
        fold (\<lambda>i t. t\<lparr>b := (if containsBathymetry msg
                                then elemSet (b t) 0 (i + 1) (layer_b msg ! i) else b t),
                        h := elemSet (h t) 0 (i + 1) (layer_h msg ! i),
                        hu := elemSet (hu t) 0 (i + 1) (layer_hu msg ! i),
                        hv := elemSet (hv t) 0 (i + 1) (layer_hv msg ! i)\<rparr>) [0..<ny s] s
      else if boundary msg = BND_LEFT \<and> boundaryType s BND_RIGHT = CONNECT then
        fold (\<lambda>i t. t\<lparr>b := (if containsBathymetry msg
                                then elemSet (b t) (nx s + 1) (i + 1) (layer_b msg ! i) else b t),
                        h := elemSet (h t) (nx s + 1) (i + 1) (layer_h msg ! i),
                        hu := elemSet (hu t) (nx s + 1) (i + 1) (layer_hu msg ! i),
                        hv := elemSet (hv t) (nx s + 1) (i + 1) (layer_hv msg ! i)\<rparr>) [0..<ny s] s
      else if boundary msg = BND_TOP \<and> boundaryType s BND_BOTTOM = CONNECT then
        fold (\<lambda>i t. t\<lparr>b := (if containsBathymetry msg
                                then elemSet (b t) (i + 1) 0 (layer_b msg ! i) else b t),
                        h := elemSet (h t) (i + 1) 0 (layer_h msg ! i),
                        hu := elemSet (hu t) (i + 1) 0 (layer_hu msg ! i),
                        hv := elemSet (hv t) (i + 1) 0 (layer_hv msg ! i)\<rparr>) [0..<nx s] s
      else if boundary msg = BND_BOTTOM \<and> boundaryType s BND_TOP = CONNECT then
        fold (\<lambda>i t. t\<lparr>b := (if containsBathymetry msg
                                then elemSet (b t) (i + 1) (ny s + 1) (layer_b msg ! i) else b t),
                        h := elemSet (h t) (i + 1) (ny s + 1) (layer_h msg ! i),
                        hu := elemSet (hu t) (i + 1) (ny s + 1) (layer_hu msg ! i),
                        hv := elemSet (hv t) (i + 1) (ny s + 1) (layer_hv msg ! i)\<rparr>) [0..<nx s] s
      else s)"










section \<open>Constructor and output\<close>

definition writeTimestep :: "block \<Rightarrow> block" where
  "writeTimestep s = s\<lparr>written := written s @ [(h s, hu s, hv s, currentSimulationTime s)]\<rparr>"

text \<open>
  The globals set by the launcher and the index of the block in its chare array.
\<close>

record config =
  blockCountX :: int
  blockCountY :: int
  simulationDuration :: real
  checkpointCount :: int
  thisIndex :: int

text \<open>
  \<^verbatim>\<open>new float[checkpointCount]\<close> and the loop that fills it. A negative count makes
  \<^verbatim>\<open>new\<close> throw; with a count of zero the assignment to
  \<^verbatim>\<open>checkpointInstantOfTime[0]\<close> is outside the array. The allocated array is not
  initialised by C++; every entry is assigned before it is read, and the model starts
  from zeros. Every operation is a \<^verbatim>\<open>float\<close> operation: the division
  \<^verbatim>\<open>simulationDuration / checkpointCount\<close> converts the count to \<^verbatim>\<open>float\<close> and
  rounds the quotient, and each \<^verbatim>\<open>checkpointInstantOfTime[i - 1] + checkpointTimeDelta\<close>
  rounds the sum. \<open>duration\<close> is the value of a \<^verbatim>\<open>float\<close> variable. When an entry is
  infinite in C++ no real number stands for it, and the model stops with
  \<open>NonFiniteSchedule\<close>.
\<close>

definition checkpointSchedule :: "real \<Rightarrow> int \<Rightarrow> error + real list" where
  "checkpointSchedule duration count' =
     (if count' < 0 then Inl BadArrayNewLength
      else if count' = 0 then Inl OutOfBounds
      else let checkpointTimeDelta = float32 (duration / float32 (real_of_int count'));
               c0 = (replicate (nat count') 0)[0 := checkpointTimeDelta];
               c = fold (\<lambda>i c. c[i := float32 (c ! (i - 1) + checkpointTimeDelta)])
                     [1..<nat count'] c0
           in if list_ex (\<lambda>v. 2 powi 128 \<le> \<bar>v\<bar>) c then Inl NonFiniteSchedule else Inr c)"

text \<open>
  The base-class constructor and the member initialisers: zeroed fields of the allocated
  sizes, every boundary \<open>PASSIVE\<close>. \<open>maxTimestep\<close> is not initialised by the source
  (here \<open>0\<close>).
\<close>

definition SWE_Block_new :: "nat \<Rightarrow> nat \<Rightarrow> real \<Rightarrow> real \<Rightarrow> real \<Rightarrow> real \<Rightarrow> block" where
  "SWE_Block_new nx' ny' dx' dy' originX' originY' =
     \<lparr>nx = nx', ny = ny', dx = dx', dy = dy', originX = originX', originY = originY',
      maxTimestep = 0,
      h = Float2D_new (nx' + 2) (ny' + 2), hu = Float2D_new (nx' + 2) (ny' + 2),
      hv = Float2D_new (nx' + 2) (ny' + 2), b = Float2D_new (nx' + 2) (ny' + 2),
      boundaryType = (\<lambda>e. PASSIVE),
      hNetUpdatesLeft = Float2D_new (nx' + 2) (ny' + 2),
      hNetUpdatesRight = Float2D_new (nx' + 2) (ny' + 2),
      huNetUpdatesLeft = Float2D_new (nx' + 2) (ny' + 2),
      huNetUpdatesRight = Float2D_new (nx' + 2) (ny' + 2),
      hNetUpdatesBelow = Float2D_new (nx' + 1) (ny' + 2),
      hNetUpdatesAbove = Float2D_new (nx' + 1) (ny' + 2),
      hvNetUpdatesBelow = Float2D_new (nx' + 1) (ny' + 2),
      hvNetUpdatesAbove = Float2D_new (nx' + 1) (ny' + 2),
      neighbourIndex = (\<lambda>e. -1),
      checkpointInstantOfTime = [],
      currentSimulationTime = 0,
      currentCheckpoint = 0,
      written = []\<rparr>"

definition neighbours :: "config \<Rightarrow> int \<Rightarrow> int \<Rightarrow> Boundary \<Rightarrow> int" where
  "neighbours cfg posX posY e =
     (case e of
        BND_LEFT \<Rightarrow> (if posX > 0 then thisIndex cfg - blockCountY cfg else -1)
      | BND_RIGHT \<Rightarrow> (if posX < blockCountX cfg - 1 then thisIndex cfg + blockCountY cfg else -1)
      | BND_BOTTOM \<Rightarrow> (if posY > 0 then thisIndex cfg - 1 else -1)
      | BND_TOP \<Rightarrow> (if posY < blockCountY cfg - 1 then thisIndex cfg + 1 else -1))"

text \<open>
  The constructor of \<^verbatim>\<open>SWE_DimensionalSplittingCharm\<close>, in the order of its
  statements; the scenario it builds is a parameter.
\<close>

definition construct ::
  "config \<Rightarrow> scenario \<Rightarrow> nat \<Rightarrow> nat \<Rightarrow> real \<Rightarrow> real \<Rightarrow> real \<Rightarrow> real \<Rightarrow> int \<Rightarrow> int \<Rightarrow>
   (Boundary \<Rightarrow> BoundaryType) \<Rightarrow> error + block" where
  "construct cfg sc nx' ny' dx' dy' originX' originY' posX posY boundaries =
     (let s0 = (SWE_Block_new nx' ny' dx' dy' originX' originY')
                 \<lparr>currentSimulationTime := 0, currentCheckpoint := 0,
                  neighbourIndex := neighbours cfg posX posY\<rparr>
      in andThen (checkpointSchedule (simulationDuration cfg) (checkpointCount cfg)) (\<lambda>c.
         andThen (initScenario sc boundaries (s0\<lparr>checkpointInstantOfTime := c\<rparr>)) (\<lambda>s1.
         Inr (writeTimestep s1))))"

section \<open>Notions used to state and prove the properties\<close>

text \<open>
  A loop that assigns to the cell \<open>g p\<close> of one field a function \<open>m p\<close> of the value of
  its cell \<open>i p\<close>, for \<open>p\<close> running through a list: every loop over a field in the
  code above has this form.
\<close>

definition cellFold ::
  "('p \<Rightarrow> nat \<times> nat) \<Rightarrow> ('p \<Rightarrow> nat \<times> nat) \<Rightarrow> ('p \<Rightarrow> real \<Rightarrow> real) \<Rightarrow> 'p list \<Rightarrow> Float2D \<Rightarrow> Float2D" where
  "cellFold g i m ps F =
     fold (\<lambda>p F. elemSet F (fst (g p)) (snd (g p)) (m p (elemAt F (fst (i p)) (snd (i p))))) ps F"

text \<open>
  The edge whose ghost strip a message with a given tag is for: the code's comment
  "LEFT ghost layer consists of values from the left neighbours RIGHT copy layer etc."
\<close>

definition opposite :: "Boundary \<Rightarrow> Boundary" where
  "opposite e = (case e of BND_LEFT \<Rightarrow> BND_RIGHT | BND_RIGHT \<Rightarrow> BND_LEFT
                 | BND_BOTTOM \<Rightarrow> BND_TOP | BND_TOP \<Rightarrow> BND_BOTTOM)"

text \<open>
  The amounts \<open>updateUnknowns\<close> subtracts from \<open>h\<close>, \<open>hu\<close> and \<open>hv\<close> at the cell \<open>p\<close>,
  read from the net-update buffers of the block \<open>s\<close>.
\<close>

definition hDelta :: "real \<Rightarrow> block \<Rightarrow> nat \<times> nat \<Rightarrow> real" where
  "hDelta dt s p =
     (dt / dx s) * (elemAt (hNetUpdatesRight s) (fst p) (snd p) + elemAt (hNetUpdatesLeft s) (fst p) (snd p)) +
     (dt / dy s) * (elemAt (hNetUpdatesAbove s) (fst p) (snd p) + elemAt (hNetUpdatesBelow s) (fst p) (snd p))"

definition huDelta :: "real \<Rightarrow> block \<Rightarrow> nat \<times> nat \<Rightarrow> real" where
  "huDelta dt s p =
     (dt / dx s) * (elemAt (huNetUpdatesRight s) (fst p) (snd p) + elemAt (huNetUpdatesLeft s) (fst p) (snd p))"

definition hvDelta :: "real \<Rightarrow> block \<Rightarrow> nat \<times> nat \<Rightarrow> real" where
  "hvDelta dt s p =
     (dt / dy s) * (elemAt (hvNetUpdatesAbove s) (fst p) (snd p) + elemAt (hvNetUpdatesBelow s) (fst p) (snd p))"

text \<open>The eight net-update buffers of two blocks are the same.\<close>

definition sameBuffers :: "block \<Rightarrow> block \<Rightarrow> bool" where
  "sameBuffers s t =
     (hNetUpdatesLeft t = hNetUpdatesLeft s \<and> hNetUpdatesRight t = hNetUpdatesRight s \<and>
      huNetUpdatesLeft t = huNetUpdatesLeft s \<and> huNetUpdatesRight t = huNetUpdatesRight s \<and>
      hNetUpdatesBelow t = hNetUpdatesBelow s \<and> hNetUpdatesAbove t = hNetUpdatesAbove s \<and>
      hvNetUpdatesBelow t = hvNetUpdatesBelow s \<and> hvNetUpdatesAbove t = hvNetUpdatesAbove s)"

text \<open>
  The cells of an edge, numbered \<open>k = 1, ..., stripLength\<close>: the ghost cell of the edge,
  and the interior cell next to it.
\<close>

definition ghostCell :: "block \<Rightarrow> Boundary \<Rightarrow> nat \<Rightarrow> nat \<times> nat" where
  "ghostCell s e k = (case e of BND_LEFT \<Rightarrow> (0, k) | BND_RIGHT \<Rightarrow> (nx s + 1, k)
                      | BND_BOTTOM \<Rightarrow> (k, 0) | BND_TOP \<Rightarrow> (k, ny s + 1))"

definition innerCell :: "block \<Rightarrow> Boundary \<Rightarrow> nat \<Rightarrow> nat \<times> nat" where
  "innerCell s e k = (case e of BND_LEFT \<Rightarrow> (1, k) | BND_RIGHT \<Rightarrow> (nx s, k)
                      | BND_BOTTOM \<Rightarrow> (k, 1) | BND_TOP \<Rightarrow> (k, ny s))"

definition stripLength :: "block \<Rightarrow> Boundary \<Rightarrow> nat" where
  "stripLength s e = (case e of BND_LEFT \<Rightarrow> ny s | BND_RIGHT \<Rightarrow> ny s
                      | BND_BOTTOM \<Rightarrow> nx s | BND_TOP \<Rightarrow> nx s)"

text \<open>The values \<open>(h, hu, hv)\<close> of a block at a cell.\<close>

definition cells :: "block \<Rightarrow> nat \<times> nat \<Rightarrow> real \<times> real \<times> real" where
  "cells t p = (elemAt (h t) (fst p) (snd p), elemAt (hu t) (fst p) (snd p), elemAt (hv t) (fst p) (snd p))"

text \<open>
  What a reflecting wall on edge \<open>e\<close> makes of the values \<open>(h, hu, hv)\<close> of the interior
  cell: the momentum normal to the edge (\<open>hu\<close> on the left and right, \<open>hv\<close> at the
  bottom and top) changes sign.
\<close>

definition wallMirror :: "Boundary \<Rightarrow> real \<times> real \<times> real \<Rightarrow> real \<times> real \<times> real" where
  "wallMirror e c = (case c of (a, u, v) \<Rightarrow>
                      (case e of BND_LEFT \<Rightarrow> (a, - u, v) | BND_RIGHT \<Rightarrow> (a, - u, v)
                       | BND_BOTTOM \<Rightarrow> (a, u, - v) | BND_TOP \<Rightarrow> (a, u, - v)))"

text \<open>
  The result of one loop of \<open>applyBoundaryConditions\<close>, field by field: cell \<open>G j\<close> gets
  the value of cell \<open>I j\<close>, with \<open>mu\<close> applied for \<open>hu\<close> and \<open>mv\<close> for \<open>hv\<close>. The four
  edges of a block \<open>s\<close> in this form (no cell for a \<open>CONNECT\<close> or \<open>PASSIVE\<close> edge, the
  sign for a \<open>WALL\<close>), and the corners.
\<close>

definition ghosted ::
  "('p \<Rightarrow> nat \<times> nat) \<Rightarrow> ('p \<Rightarrow> nat \<times> nat) \<Rightarrow> (real \<Rightarrow> real) \<Rightarrow> (real \<Rightarrow> real) \<Rightarrow> 'p list \<Rightarrow> block \<Rightarrow> block" where
  "ghosted G I mu mv js t =
     t\<lparr>h := cellFold G I (\<lambda>j v. v) js (h t),
       hu := cellFold G I (\<lambda>j. mu) js (hu t),
       hv := cellFold G I (\<lambda>j. mv) js (hv t)\<rparr>"

definition edgeSign :: "BoundaryType \<Rightarrow> real \<Rightarrow> real" where
  "edgeSign ty = (if ty = WALL then uminus else (\<lambda>v. v))"

definition edgeCells :: "BoundaryType \<Rightarrow> nat \<Rightarrow> nat list" where
  "edgeCells ty n = (if ty = WALL \<or> ty = OUTFLOW then [1..<n + 1] else [])"

definition leftGhosted :: "block \<Rightarrow> block \<Rightarrow> block" where
  "leftGhosted s t = ghosted (\<lambda>j. (0, j)) (\<lambda>j. (1, j)) (edgeSign (boundaryType s BND_LEFT)) (\<lambda>v. v)
                       (edgeCells (boundaryType s BND_LEFT) (ny s)) t"

definition rightGhosted :: "block \<Rightarrow> block \<Rightarrow> block" where
  "rightGhosted s t = ghosted (\<lambda>j. (nx s + 1, j)) (\<lambda>j. (nx s, j)) (edgeSign (boundaryType s BND_RIGHT)) (\<lambda>v. v)
                        (edgeCells (boundaryType s BND_RIGHT) (ny s)) t"

definition bottomGhosted :: "block \<Rightarrow> block \<Rightarrow> block" where
  "bottomGhosted s t = ghosted (\<lambda>i. (i, 0)) (\<lambda>i. (i, 1)) (\<lambda>v. v) (edgeSign (boundaryType s BND_BOTTOM))
                         (edgeCells (boundaryType s BND_BOTTOM) (nx s)) t"

definition topGhosted :: "block \<Rightarrow> block \<Rightarrow> block" where
  "topGhosted s t = ghosted (\<lambda>i. (i, ny s + 1)) (\<lambda>i. (i, ny s)) (\<lambda>v. v) (edgeSign (boundaryType s BND_TOP))
                      (edgeCells (boundaryType s BND_TOP) (nx s)) t"

definition cornersGhosted :: "block \<Rightarrow> block \<Rightarrow> block" where
  "cornersGhosted s t =
     cornerGhost (nx s + 1) (ny s + 1) (nx s) (ny s)
       (cornerGhost (nx s + 1) 0 (nx s) 1
         (cornerGhost 0 (ny s + 1) 1 (ny s)
           (cornerGhost 0 0 1 1 t)))"

text \<open>No edge has a boundary type outside the four of the specification.\<close>

definition knownTypes :: "block \<Rightarrow> bool" where
  "knownTypes s = (boundaryType s BND_LEFT \<noteq> UNKNOWN_TYPE \<and> boundaryType s BND_RIGHT \<noteq> UNKNOWN_TYPE \<and>
                   boundaryType s BND_BOTTOM \<noteq> UNKNOWN_TYPE \<and> boundaryType s BND_TOP \<noteq> UNKNOWN_TYPE)"

text \<open>The fields \<open>h\<close>, \<open>hu\<close>, \<open>hv\<close> of \<open>t\<close> have the sizes allocated for the block \<open>s\<close>.\<close>

definition grids3 :: "block \<Rightarrow> block \<Rightarrow> bool" where
  "grids3 s t = (grid_ok (nx s + 2) (ny s + 2) (h t) \<and> grid_ok (nx s + 2) (ny s + 2) (hu t) \<and>
                 grid_ok (nx s + 2) (ny s + 2) (hv t))"

text \<open>
  The result of one loop of \<open>processCopyLayer\<close> (cell \<open>g i\<close> gets entry \<open>i\<close> of the
  message arrays, for \<open>i < n\<close>), and what it means that the cell \<open>(x, y)\<close> of \<open>s'\<close> holds
  entry \<open>i\<close> of the message: \<open>h\<close>, \<open>hu\<close>, \<open>hv\<close> always, \<open>b\<close> exactly when the message
  contains bathymetry (otherwise \<open>b\<close> is as in \<open>s\<close>).
\<close>

definition received :: "copyLayer \<Rightarrow> (nat \<Rightarrow> nat \<times> nat) \<Rightarrow> nat \<Rightarrow> block \<Rightarrow> block" where
  "received msg g n s =
     s\<lparr>b := (if containsBathymetry msg then cellFold g g (\<lambda>i v. layer_b msg ! i) [0..<n] (b s) else b s),
       h := cellFold g g (\<lambda>i v. layer_h msg ! i) [0..<n] (h s),
       hu := cellFold g g (\<lambda>i v. layer_hu msg ! i) [0..<n] (hu s),
       hv := cellFold g g (\<lambda>i v. layer_hv msg ! i) [0..<n] (hv s)\<rparr>"

definition filled :: "copyLayer \<Rightarrow> block \<Rightarrow> block \<Rightarrow> nat \<Rightarrow> nat \<Rightarrow> nat \<Rightarrow> bool" where
  "filled msg s s' x y i =
     (elemAt (h s') x y = layer_h msg ! i \<and> elemAt (hu s') x y = layer_hu msg ! i \<and>
      elemAt (hv s') x y = layer_hv msg ! i \<and>
      elemAt (b s') x y = (if containsBathymetry msg then layer_b msg ! i else elemAt (b s) x y))"

text \<open>
  The Riemann function applied to the cell pair \<open>p\<close> - right neighbour of \<open>p\<close> and
  \<open>p\<close> - upper neighbour of \<open>p\<close> of a block; the cell pairs of the two sweeps in the
  order of the loops; the values of the reduction variables \<open>maxHorizontalWaveSpeed\<close> and
  \<open>maxVerticalWaveSpeed\<close> at the end of the sweeps of \<open>computeNumericalFluxes\<close>, and the
  solver calls made by each sweep.
\<close>

definition xRiemann :: "riemann \<Rightarrow> block \<Rightarrow> nat \<times> nat \<Rightarrow> netUpdates" where
  "xRiemann rs s p =
     rs (elemAt (h s) (fst p) (snd p)) (elemAt (h s) (fst p + 1) (snd p))
        (elemAt (hu s) (fst p) (snd p)) (elemAt (hu s) (fst p + 1) (snd p))
        (elemAt (b s) (fst p) (snd p)) (elemAt (b s) (fst p + 1) (snd p))"

definition yRiemann :: "riemann \<Rightarrow> block \<Rightarrow> nat \<times> nat \<Rightarrow> netUpdates" where
  "yRiemann rs s p =
     rs (elemAt (h s) (fst p) (snd p)) (elemAt (h s) (fst p) (snd p + 1))
        (elemAt (hv s) (fst p) (snd p)) (elemAt (hv s) (fst p) (snd p + 1))
        (elemAt (b s) (fst p) (snd p)) (elemAt (b s) (fst p) (snd p + 1))"

definition xCells :: "block \<Rightarrow> (nat \<times> nat) list" where
  "xCells s = List.product [0..<nx s + 1] [1..<ny s + 1]"

definition yCells :: "block \<Rightarrow> (nat \<times> nat) list" where
  "yCells s = List.product [1..<nx s + 1] [0..<ny s + 1]"

definition xWaveSpeed :: "riemann \<Rightarrow> block \<Rightarrow> real" where
  "xWaveSpeed rs s = fst (snd (xSweep rs s))"

definition xCalls :: "riemann \<Rightarrow> block \<Rightarrow> (nat \<times> nat) list" where
  "xCalls rs s = snd (snd (xSweep rs s))"

definition yWaveSpeed :: "riemann \<Rightarrow> block \<Rightarrow> real" where
  "yWaveSpeed rs s = fst (snd (ySweep rs (fst (xSweep rs s))))"

definition yCalls :: "riemann \<Rightarrow> block \<Rightarrow> (nat \<times> nat) list" where
  "yCalls rs s = snd (snd (ySweep rs (fst (xSweep rs s))))"

text \<open>The four cell fields of two blocks are the same; the net-update buffers after a sweep.\<close>

definition sameCells :: "block \<Rightarrow> block \<Rightarrow> bool" where
  "sameCells s t = (h t = h s \<and> hu t = hu s \<and> hv t = hv s \<and> b t = b s)"

definition xSwept :: "riemann \<Rightarrow> block \<Rightarrow> block \<Rightarrow> block" where
  "xSwept rs s t =
     t\<lparr>hNetUpdatesLeft := cellFold (\<lambda>p. p) (\<lambda>p. p) (\<lambda>p v. hUpdateLeft (xRiemann rs s p)) (xCells s) (hNetUpdatesLeft t),
       hNetUpdatesRight := cellFold (\<lambda>p. (fst p + 1, snd p)) (\<lambda>p. (fst p + 1, snd p))
                              (\<lambda>p v. hUpdateRight (xRiemann rs s p)) (xCells s) (hNetUpdatesRight t),
       huNetUpdatesLeft := cellFold (\<lambda>p. p) (\<lambda>p. p) (\<lambda>p v. huUpdateLeft (xRiemann rs s p)) (xCells s) (huNetUpdatesLeft t),
       huNetUpdatesRight := cellFold (\<lambda>p. (fst p + 1, snd p)) (\<lambda>p. (fst p + 1, snd p))
                              (\<lambda>p v. huUpdateRight (xRiemann rs s p)) (xCells s) (huNetUpdatesRight t)\<rparr>"

definition ySwept :: "riemann \<Rightarrow> block \<Rightarrow> block \<Rightarrow> block" where
  "ySwept rs s t =
     t\<lparr>hNetUpdatesBelow := cellFold (\<lambda>p. p) (\<lambda>p. p) (\<lambda>p v. hUpdateLeft (yRiemann rs s p)) (yCells s) (hNetUpdatesBelow t),
       hNetUpdatesAbove := cellFold (\<lambda>p. (fst p, snd p + 1)) (\<lambda>p. (fst p, snd p + 1))
                              (\<lambda>p v. hUpdateRight (yRiemann rs s p)) (yCells s) (hNetUpdatesAbove t),
       hvNetUpdatesBelow := cellFold (\<lambda>p. p) (\<lambda>p. p) (\<lambda>p v. huUpdateLeft (yRiemann rs s p)) (yCells s) (hvNetUpdatesBelow t),
       hvNetUpdatesAbove := cellFold (\<lambda>p. (fst p, snd p + 1)) (\<lambda>p. (fst p, snd p + 1))
                              (\<lambda>p v. huUpdateRight (yRiemann rs s p)) (yCells s) (hvNetUpdatesAbove t)\<rparr>"







text \<open>
  Ghost cells of a block, a field that agrees with another on every interior cell, and
  one step of \<open>applyBoundaryBathymetry\<close> (a loop over \<open>b\<close> under its condition).
\<close>

definition isGhost :: "block \<Rightarrow> nat \<times> nat \<Rightarrow> bool" where
  "isGhost s p = (fst p < nx s + 2 \<and> snd p < ny s + 2 \<and>
                  (fst p = 0 \<or> fst p = nx s + 1 \<or> snd p = 0 \<or> snd p = ny s + 1))"

definition keepsInterior :: "block \<Rightarrow> Float2D \<Rightarrow> Float2D \<Rightarrow> bool" where
  "keepsInterior s F F' =
     (grid_ok (nx s + 2) (ny s + 2) F' \<and>
      (\<forall>x y. 1 \<le> x \<and> x \<le> nx s \<and> 1 \<le> y \<and> y \<le> ny s \<longrightarrow> elemAt F' x y = elemAt F x y))"

definition bathStep ::
  "bool \<Rightarrow> ('p \<Rightarrow> nat \<times> nat) \<Rightarrow> ('p \<Rightarrow> nat \<times> nat) \<Rightarrow> 'p list \<Rightarrow> block \<Rightarrow> block" where
  "bathStep c G I js t = (if c then t\<lparr>b := cellFold G I (\<lambda>j v. v) js (b t)\<rparr> else t)"

text \<open>
  The checkpoint schedule, the simulation clock and the writer's output of a block: the
  parts of the state that only the constructor and the time-step driver assign.
\<close>

definition clockAndOutput :: "block \<Rightarrow> real list \<times> real \<times> (Float2D \<times> Float2D \<times> Float2D \<times> real) list" where
  "clockAndOutput t = (checkpointInstantOfTime t, currentSimulationTime t, written t)"

text \<open>
  The sizes of a field and of a block: the part of the state that \<open>wf_block\<close> looks at.
\<close>

definition gshape :: "Float2D \<Rightarrow> nat \<times> nat \<times> nat" where
  "gshape F = (cols F, rows F, length (elem F))"

definition shape :: "block \<Rightarrow> (nat \<times> nat \<times> real \<times> real) \<times> (nat \<times> nat \<times> nat) list" where
  "shape t = ((nx t, ny t, dx t, dy t),
              map gshape [h t, hu t, hv t, b t, hNetUpdatesLeft t, hNetUpdatesRight t,
                          huNetUpdatesLeft t, huNetUpdatesRight t, hNetUpdatesBelow t,
                          hNetUpdatesAbove t, hvNetUpdatesBelow t, hvNetUpdatesAbove t])"

section \<open>A block to evaluate on\<close>

text \<open>
  Two interior cells side by side (\<open>nx = 2\<close>, \<open>ny = 1\<close>), a wall on the left, a
  neighbour on the right, outflow at the bottom and a passive top edge. The fields are
  listed column by column.
\<close>

definition exBlock :: block where
  "exBlock =
     \<lparr>nx = 2, ny = 1, dx = 1, dy = 4, originX = 0, originY = 0, maxTimestep = 1 / 10,
      h = \<lparr>cols = 4, rows = 3, elem = [1, 2, 3, 4, 5, 6, 7, 8, 9, 10, 11, 12]\<rparr>,
      hu = \<lparr>cols = 4, rows = 3, elem = [1, 1, 1, 1, 1, 1, 1, 1, 1, 1, 1, 1]\<rparr>,
      hv = \<lparr>cols = 4, rows = 3, elem = [4, 4, 4, 4, 4, 4, 4, 4, 4, 4, 4, 4]\<rparr>,
      b = \<lparr>cols = 4, rows = 3, elem = [-1, -2, -3, -4, -5, -6, -7, -8, -9, -10, -11, -12]\<rparr>,
      boundaryType = (\<lambda>e. case e of BND_LEFT \<Rightarrow> WALL | BND_RIGHT \<Rightarrow> CONNECT
                           | BND_BOTTOM \<Rightarrow> OUTFLOW | BND_TOP \<Rightarrow> PASSIVE),
      hNetUpdatesLeft = \<lparr>cols = 4, rows = 3, elem = [0, 0, 0, 0, 1, 0, 0, 2, 0, 0, 0, 0]\<rparr>,
      hNetUpdatesRight = \<lparr>cols = 4, rows = 3, elem = [0, 0, 0, 0, 3, 0, 0, 4, 0, 0, 0, 0]\<rparr>,
      huNetUpdatesLeft = \<lparr>cols = 4, rows = 3, elem = [0, 0, 0, 0, 5, 0, 0, 6, 0, 0, 0, 0]\<rparr>,
      huNetUpdatesRight = \<lparr>cols = 4, rows = 3, elem = [0, 0, 0, 0, 7, 0, 0, 8, 0, 0, 0, 0]\<rparr>,
      hNetUpdatesBelow = \<lparr>cols = 3, rows = 3, elem = [0, 0, 0, 0, 4, 0, 0, 8, 0]\<rparr>,
      hNetUpdatesAbove = \<lparr>cols = 3, rows = 3, elem = [0, 0, 0, 0, 12, 0, 0, 16, 0]\<rparr>,
      hvNetUpdatesBelow = \<lparr>cols = 3, rows = 3, elem = [0, 0, 0, 0, 20, 0, 0, 24, 0]\<rparr>,
      hvNetUpdatesAbove = \<lparr>cols = 3, rows = 3, elem = [0, 0, 0, 0, 28, 0, 0, 32, 0]\<rparr>,
      neighbourIndex = (\<lambda>e. case e of BND_RIGHT \<Rightarrow> 7 | _ \<Rightarrow> -1),
      checkpointInstantOfTime = [5, 10],
      currentSimulationTime = 0,
      currentCheckpoint = 0,
      written = []\<rparr>"

text \<open>A Riemann function to evaluate with: its wave speed is the left momentum.\<close>

definition exRiemann :: riemann where
  "exRiemann hL hR huL huR bL bR =
     \<lparr>hUpdateLeft = hL, hUpdateRight = hR, huUpdateLeft = huL + bL, huUpdateRight = huR + bR,
      waveSpeed = huL\<rparr>"

text \<open>A message from the right neighbour (tagged with the sender's edge, \<open>LEFT\<close>).\<close>

definition exLayer :: copyLayer where
  "exLayer = \<lparr>boundary = BND_LEFT, containsBathymetry = True, layer_b = [- 20],
              layer_h = [20], layer_hu = [21], layer_hv = [22]\<rparr>"

text \<open>
  Two launcher configurations, with four checkpoints in ten seconds and with ten
  checkpoints in one second, and a scenario.
\<close>

definition exConfig :: config where
  "exConfig = \<lparr>blockCountX = 1, blockCountY = 1, simulationDuration = 10, checkpointCount = 4,
               thisIndex = 0\<rparr>"

definition exTenths :: config where
  "exTenths = \<lparr>blockCountX = 1, blockCountY = 1, simulationDuration = 1, checkpointCount = 10,
               thisIndex = 0\<rparr>"

definition exScenario :: scenario where
  "exScenario = \<lparr>getBathymetry = (\<lambda>x y. - 1), getWaterHeight = (\<lambda>x y. x + y),
                 getVeloc_u = (\<lambda>x y. 1), getVeloc_v = (\<lambda>x y. 0)\<rparr>"

section \<open>Facts about grid buffers\<close>

lemma grid_ok_new: "grid_ok c r (Float2D_new c r)"
  by (simp add: grid_ok_def Float2D_new_def)

lemma grid_ok_elemSet: "grid_ok c r f \<Longrightarrow> grid_ok c r (elemSet f x y v)"
  by (simp add: grid_ok_def elemSet_def)

lemma offset_lt: "x < c \<Longrightarrow> y < r \<Longrightarrow> x * r + y < c * (r::nat)"
proof -
  assume x: "x < c" and y: "y < r"
  have "x * r + y < x * r + r" using y by simp
  also have "\<dots> = Suc x * r" by simp
  also have "\<dots> \<le> c * r" using x by (intro mult_le_mono1) simp
  finally show ?thesis .
qed

lemma offset_inj:
  assumes "y < r" and "y' < r"
  shows "(x * r + y = x' * r + y') = (x = x' \<and> y = (y'::nat))"
proof
  assume e: "x * r + y = x' * r + y'"
  have "(x * r + y) div r = x" using assms by simp
  moreover have "(x' * r + y') div r = x'" using assms by simp
  ultimately have "x = x'" using e by simp
  with e show "x = x' \<and> y = y'" by simp
qed simp

lemma elemAt_elemSet:
  assumes "grid_ok c r f" and "x < c" and "y < r" and "y' < r"
  shows "elemAt (elemSet f x y v) x' y' = (if x' = x \<and> y' = y then v else elemAt f x' y')"
proof -
  have len: "x * r + y < length (elem f)"
    using assms offset_lt [of x c y r] by (simp add: grid_ok_def)
  have r: "rows f = r" using assms by (simp add: grid_ok_def)
  show ?thesis
    using len offset_inj [OF assms(3) assms(4), of x x']
    by (auto simp: elemAt_def elemSet_def r nth_list_update)
qed

lemma cellFold_Nil: "cellFold g i m [] F = F"
  by (simp add: cellFold_def)

lemma cellFold_Cons:
  "cellFold g i m (p # ps) F =
     cellFold g i m ps (elemSet F (fst (g p)) (snd (g p)) (m p (elemAt F (fst (i p)) (snd (i p)))))"
  by (simp add: cellFold_def)

lemma cellFold_ok: "grid_ok c r F \<Longrightarrow> grid_ok c r (cellFold g i m ps F)"
  by (induction ps arbitrary: F) (simp_all add: cellFold_Nil cellFold_Cons grid_ok_elemSet)

lemma cellFold_frame:
  assumes "grid_ok c r F" and "\<forall>p\<in>set ps. fst (g p) < c \<and> snd (g p) < r"
    and "y < r" and "(x, y) \<notin> g ` set ps"
  shows "elemAt (cellFold g i m ps F) x y = elemAt F x y"
  using assms
proof (induction ps arbitrary: F)
  case Nil
  then show ?case by (simp add: cellFold_Nil)
next
  case (Cons p ps)
  let ?F = "elemSet F (fst (g p)) (snd (g p)) (m p (elemAt F (fst (i p)) (snd (i p))))"
  have ok: "grid_ok c r ?F" using Cons.prems(1) by (rule grid_ok_elemSet)
  have "elemAt (cellFold g i m ps ?F) x y = elemAt ?F x y"
    using Cons.prems by (intro Cons.IH [OF ok]) auto
  also have "\<dots> = elemAt F x y"
  proof -
    have "(x, y) \<noteq> g p" using Cons.prems(4) by auto
    then have "\<not> (x = fst (g p) \<and> y = snd (g p))" by (metis prod.collapse)
    then show ?thesis
      using Cons.prems(1,2,3) by (auto simp: elemAt_elemSet [where c = c and r = r])
  qed
  finally show ?case by (simp add: cellFold_Cons)
qed

lemma cellFold_at:
  assumes "grid_ok c r F" and "\<forall>p\<in>set ps. fst (g p) < c \<and> snd (g p) < r \<and> snd (i p) < r"
    and "distinct (map g ps)" and "\<forall>p\<in>set ps. \<forall>q\<in>set ps. i p = g q \<longrightarrow> p = q"
    and "p \<in> set ps"
  shows "elemAt (cellFold g i m ps F) (fst (g p)) (snd (g p)) = m p (elemAt F (fst (i p)) (snd (i p)))"
  using assms
proof (induction ps arbitrary: F)
  case Nil
  then show ?case by simp
next
  case (Cons q ps)
  let ?F = "elemSet F (fst (g q)) (snd (g q)) (m q (elemAt F (fst (i q)) (snd (i q))))"
  have ok: "grid_ok c r ?F" using Cons.prems(1) by (rule grid_ok_elemSet)
  have bq: "fst (g q) < c" "snd (g q) < r" "snd (i q) < r" using Cons.prems(2) by auto
  have fresh: "g q \<notin> g ` set ps" using Cons.prems(3) by simp
  show ?case
  proof (cases "p \<in> set ps")
    case True
    have pq: "p \<noteq> q" using True fresh by auto
    have "i p \<noteq> g q" using Cons.prems(4,5) pq by auto
    then have ne: "\<not> (fst (i p) = fst (g q) \<and> snd (i p) = snd (g q))" by (metis prod.collapse)
    have bp: "snd (i p) < r" using Cons.prems(2,5) by auto
    have "elemAt (cellFold g i m ps ?F) (fst (g p)) (snd (g p)) = m p (elemAt ?F (fst (i p)) (snd (i p)))"
      using Cons.prems True by (intro Cons.IH [OF ok]) auto
    also have "elemAt ?F (fst (i p)) (snd (i p)) = elemAt F (fst (i p)) (snd (i p))"
      using ne bq bp Cons.prems(1) by (auto simp: elemAt_elemSet [where c = c and r = r])
    finally show ?thesis by (simp add: cellFold_Cons)
  next
    case False
    then have pq: "p = q" using Cons.prems(5) by simp
    have "elemAt (cellFold g i m ps ?F) (fst (g q)) (snd (g q)) = elemAt ?F (fst (g q)) (snd (g q))"
      using Cons.prems(2) bq fresh by (intro cellFold_frame [OF ok]) auto
    also have "\<dots> = m q (elemAt F (fst (i q)) (snd (i q)))"
      using bq Cons.prems(1) by (simp add: elemAt_elemSet [where c = c and r = r])
    finally show ?thesis by (simp add: cellFold_Cons pq)
  qed
qed

section \<open>The example block\<close>

lemma wf_exBlock: "wf_block exBlock"
  by (simp add: wf_block_def exBlock_def grid_ok_def)

section \<open>Loops over the cells of a block\<close>

lemma fold_product:
  "fold (\<lambda>x. fold (f x) ys) xs = fold (\<lambda>p. f (fst p) (snd p)) (List.product xs ys)"
  by (induction xs) (simp_all add: fold_map comp_def)

lemma update_fold_state:
  "sameBuffers s t \<Longrightarrow> fold (\<lambda>p. updateCell dt s (fst p) (snd p)) ps t =
     t\<lparr>h := cellFold (\<lambda>p. p) (\<lambda>p. p) (\<lambda>p v. v - hDelta dt s p) ps (h t),
       hu := cellFold (\<lambda>p. p) (\<lambda>p. p) (\<lambda>p v. v - huDelta dt s p) ps (hu t),
       hv := cellFold (\<lambda>p. p) (\<lambda>p. p) (\<lambda>p v. v - hvDelta dt s p) ps (hv t)\<rparr>"
proof (induction ps arbitrary: t)
  case Nil
  then show ?case by (simp add: cellFold_Nil)
next
  case (Cons p ps)
  have sb: "sameBuffers s (updateCell dt s (fst p) (snd p) t)"
    using Cons.prems by (simp add: sameBuffers_def updateCell_def)
  show ?case
    using Cons.prems
    by (simp add: Cons.IH [OF sb] cellFold_Cons)
       (simp add: updateCell_def hDelta_def huDelta_def hvDelta_def sameBuffers_def)
qed

lemma updateLoop_eq:
  "updateLoop dt s =
     s\<lparr>h := cellFold (\<lambda>p. p) (\<lambda>p. p) (\<lambda>p v. v - hDelta dt s p) (List.product [1..<nx s + 1] [1..<ny s + 1]) (h s),
       hu := cellFold (\<lambda>p. p) (\<lambda>p. p) (\<lambda>p v. v - huDelta dt s p) (List.product [1..<nx s + 1] [1..<ny s + 1]) (hu s),
       hv := cellFold (\<lambda>p. p) (\<lambda>p. p) (\<lambda>p v. v - hvDelta dt s p) (List.product [1..<nx s + 1] [1..<ny s + 1]) (hv s)\<rparr>"
  unfolding updateLoop_def fold_product
  by (rule update_fold_state) (simp add: sameBuffers_def)

lemma interior_cellFold:
  assumes "grid_ok (n + 2) (k + 2) F" and "1 \<le> x" and "x \<le> n" and "1 \<le> y" and "y \<le> k"
  shows "elemAt (cellFold (\<lambda>p. p) (\<lambda>p. p) m (List.product [1..<n + 1] [1..<k + 1]) F) x y = m (x, y) (elemAt F x y)"
proof -
  let ?ps = "List.product [1..<n + 1] [1..<k + 1]"
  have bounds: "\<forall>p\<in>set ?ps. fst p < n + 2 \<and> snd p < k + 2 \<and> snd p < k + 2"
    by auto
  have dist: "distinct (map (\<lambda>p. p) ?ps)" by (simp add: distinct_product del: upt_Suc)
  have own: "\<forall>p\<in>set ?ps. \<forall>q\<in>set ?ps. p = q \<longrightarrow> p = q" by simp
  have mem: "(x, y) \<in> set ?ps" using assms(2-) by auto
  show ?thesis
    using cellFold_at [where g = "\<lambda>p. p" and i = "\<lambda>p. p" and m = m, OF assms(1) bounds dist own mem] by (simp del: upt_Suc)
qed

section \<open>updateUnknowns\<close>

text \<open>
  Claim C2. For every interior cell \<open>(x, y)\<close> with \<open>1 \<le> x \<le> nx\<close> and \<open>1 \<le> y \<le> ny\<close>,
  \<open>updateUnknowns dt\<close> sets \<open>h[x][y]\<close> to its previous value minus
  \<open>(dt/dx) * (hNetUpdatesRight[x][y] + hNetUpdatesLeft[x][y])\<close> minus
  \<open>(dt/dy) * (hNetUpdatesAbove[x][y] + hNetUpdatesBelow[x][y])\<close>, \<open>hu[x][y]\<close> to its
  previous value minus \<open>(dt/dx) * (huNetUpdatesRight[x][y] + huNetUpdatesLeft[x][y])\<close>
  and \<open>hv[x][y]\<close> to its previous value minus
  \<open>(dt/dy) * (hvNetUpdatesAbove[x][y] + hvNetUpdatesBelow[x][y])\<close>; the buffers read are
  those of the block before the call, and the call leaves them as they were.
\<close>

theorem updateUnknowns_interior:
  assumes "wf_block s" and "updateUnknowns dt s = Inr s'"
    and "1 \<le> x" and "x \<le> nx s" and "1 \<le> y" and "y \<le> ny s"
  shows "elemAt (h s') x y =
           elemAt (h s) x y
             - (dt / dx s) * (elemAt (hNetUpdatesRight s) x y + elemAt (hNetUpdatesLeft s) x y)
             - (dt / dy s) * (elemAt (hNetUpdatesAbove s) x y + elemAt (hNetUpdatesBelow s) x y) \<and>
         elemAt (hu s') x y =
           elemAt (hu s) x y
             - (dt / dx s) * (elemAt (huNetUpdatesRight s) x y + elemAt (huNetUpdatesLeft s) x y) \<and>
         elemAt (hv s') x y =
           elemAt (hv s) x y
             - (dt / dy s) * (elemAt (hvNetUpdatesAbove s) x y + elemAt (hvNetUpdatesBelow s) x y) \<and>
         sameBuffers s s'"
proof -
  have s': "s' = updateLoop dt s"
    using assms(2) by (simp add: updateUnknowns_def split: if_splits)
  have g: "grid_ok (nx s + 2) (ny s + 2) (h s)" "grid_ok (nx s + 2) (ny s + 2) (hu s)"
    "grid_ok (nx s + 2) (ny s + 2) (hv s)"
    using assms(1) by (simp_all add: wf_block_def)
  have "elemAt (h s') x y = elemAt (h s) x y - hDelta dt s (x, y)"
    unfolding s' updateLoop_eq using interior_cellFold [OF g(1) assms(3-6)] by simp
  moreover have "elemAt (hu s') x y = elemAt (hu s) x y - huDelta dt s (x, y)"
    unfolding s' updateLoop_eq using interior_cellFold [OF g(2) assms(3-6)] by simp
  moreover have "elemAt (hv s') x y = elemAt (hv s) x y - hvDelta dt s (x, y)"
    unfolding s' updateLoop_eq using interior_cellFold [OF g(3) assms(3-6)] by simp
  moreover have "sameBuffers s s'"
    unfolding s' updateLoop_eq by (simp add: sameBuffers_def)
  ultimately show ?thesis
    by (simp add: hDelta_def huDelta_def hvDelta_def)
qed

theorem updateUnknowns_interior_witness:
  "wf_block exBlock \<and> updateUnknowns (1 / 10) exBlock = Inr (updateLoop (1 / 10) exBlock) \<and>
   elemAt (h (updateLoop (1 / 10) exBlock)) 1 1 = 42 / 10 \<and>
   elemAt (hu (updateLoop (1 / 10) exBlock)) 1 1 = - 2 / 10 \<and>
   elemAt (hv (updateLoop (1 / 10) exBlock)) 1 1 = 28 / 10"
proof -
  have r: "updateUnknowns (1 / 10) exBlock = Inr (updateLoop (1 / 10) exBlock)"
    by (simp add: updateUnknowns_def exBlock_def)
  have i: "(1::nat) \<le> 1" "1 \<le> nx exBlock" "1 \<le> ny exBlock"
    by (simp_all add: exBlock_def)
  show ?thesis
    using updateUnknowns_interior [OF wf_exBlock r i(1) i(2) i(1) i(3)] wf_exBlock r
    by (simp add: exBlock_def elemAt_def)
qed



section \<open>processCopyLayer\<close>

text \<open>
  Claim C10. A copy-layer message whose tag does not pair with a \<open>CONNECT\<close> boundary on
  the receiver's opposite edge (a \<open>RIGHT\<close>-tagged message while the receiver's \<open>LEFT\<close>
  boundary is not \<open>CONNECT\<close>, and likewise for the other three tags) is dropped without
  an error: \<open>processCopyLayer\<close> returns the block as it was, so \<open>h\<close>, \<open>hu\<close>, \<open>hv\<close> and
  \<open>b\<close> are unchanged.
\<close>

theorem processCopyLayer_discards:
  assumes "boundaryType s (opposite (boundary msg)) \<noteq> CONNECT"
  shows "processCopyLayer msg s = s"
  using assms by (cases "boundary msg") (simp_all add: processCopyLayer_def opposite_def)

theorem processCopyLayer_discards_witness:
  "boundaryType exBlock (opposite BND_RIGHT) \<noteq> CONNECT \<and>
   processCopyLayer \<lparr>boundary = BND_RIGHT, containsBathymetry = True, layer_b = [9],
                     layer_h = [9], layer_hu = [9], layer_hv = [9]\<rparr> exBlock = exBlock"
proof -
  have a: "boundaryType exBlock (opposite BND_RIGHT) \<noteq> CONNECT"
    by (simp add: exBlock_def opposite_def)
  show ?thesis
    using a processCopyLayer_discards [of exBlock "\<lparr>boundary = BND_RIGHT, containsBathymetry = True, layer_b = [9],
                     layer_h = [9], layer_hu = [9], layer_hv = [9]\<rparr>"] by simp
qed

section \<open>Receiving a copy layer\<close>

lemma recv_fold_state:
  "fold (\<lambda>i t. t\<lparr>b := (if cb then elemSet (b t) (gx i) (gy i) (vb i) else b t),
                  h := elemSet (h t) (gx i) (gy i) (vh i),
                  hu := elemSet (hu t) (gx i) (gy i) (vhu i),
                  hv := elemSet (hv t) (gx i) (gy i) (vhv i)\<rparr>) js t =
   t\<lparr>b := (if cb then cellFold (\<lambda>i. (gx i, gy i)) (\<lambda>i. (gx i, gy i)) (\<lambda>i v. vb i) js (b t) else b t),
     h := cellFold (\<lambda>i. (gx i, gy i)) (\<lambda>i. (gx i, gy i)) (\<lambda>i v. vh i) js (h t),
     hu := cellFold (\<lambda>i. (gx i, gy i)) (\<lambda>i. (gx i, gy i)) (\<lambda>i v. vhu i) js (hu t),
     hv := cellFold (\<lambda>i. (gx i, gy i)) (\<lambda>i. (gx i, gy i)) (\<lambda>i v. vhv i) js (hv t)\<rparr>"
  by (induction js arbitrary: t) (simp_all add: cellFold_Nil cellFold_Cons)

lemma processCopyLayer_eq:
  "processCopyLayer msg s =
     (if boundary msg = BND_RIGHT \<and> boundaryType s BND_LEFT = CONNECT
        then received msg (\<lambda>i. (0, i + 1)) (ny s) s
      else if boundary msg = BND_LEFT \<and> boundaryType s BND_RIGHT = CONNECT
        then received msg (\<lambda>i. (nx s + 1, i + 1)) (ny s) s
      else if boundary msg = BND_TOP \<and> boundaryType s BND_BOTTOM = CONNECT
        then received msg (\<lambda>i. (i + 1, 0)) (nx s) s
      else if boundary msg = BND_BOTTOM \<and> boundaryType s BND_TOP = CONNECT
        then received msg (\<lambda>i. (i + 1, ny s + 1)) (nx s) s
      else s)"
  unfolding processCopyLayer_def received_def
  by (simp only: recv_fold_state [where gx = "\<lambda>i. 0" and gy = "\<lambda>i. i + 1"]
      recv_fold_state [where gx = "\<lambda>i. nx s + 1" and gy = "\<lambda>i. i + 1"]
      recv_fold_state [where gx = "\<lambda>i. i + 1" and gy = "\<lambda>i. 0"]
      recv_fold_state [where gx = "\<lambda>i. i + 1" and gy = "\<lambda>i. ny s + 1"])

lemma write_cellFold:
  assumes "grid_ok c r F" and "\<forall>j\<in>set js. fst (g j) < c \<and> snd (g j) < r"
    and "inj_on g (set js)" and "distinct js" and "j \<in> set js"
  shows "elemAt (cellFold g g (\<lambda>i v. w i) js F) (fst (g j)) (snd (g j)) = w j"
proof -
  have b: "\<forall>p\<in>set js. fst (g p) < c \<and> snd (g p) < r \<and> snd (g p) < r" using assms(2) by simp
  have d: "distinct (map g js)" using assms(3,4) by (simp add: distinct_map)
  have o: "\<forall>p\<in>set js. \<forall>q\<in>set js. g p = g q \<longrightarrow> p = q" using assms(3) by (auto dest: inj_onD)
  show ?thesis using cellFold_at [OF assms(1) b d o assms(5)] .
qed

lemma received_filled:
  assumes "wf_block s" and "\<forall>j<n. fst (g j) < nx s + 2 \<and> snd (g j) < ny s + 2"
    and "inj_on g {..<n}" and "i < n"
  shows "filled msg s (received msg g n s) (fst (g i)) (snd (g i)) i"
proof -
  have gk: "grid_ok (nx s + 2) (ny s + 2) (h s)" "grid_ok (nx s + 2) (ny s + 2) (hu s)"
    "grid_ok (nx s + 2) (ny s + 2) (hv s)" "grid_ok (nx s + 2) (ny s + 2) (b s)"
    using assms(1) by (simp_all add: wf_block_def)
  have bd: "\<forall>j\<in>set [0..<n]. fst (g j) < nx s + 2 \<and> snd (g j) < ny s + 2" using assms(2) by simp
  have inj: "inj_on g (set [0..<n])" using assms(3) by (simp add: lessThan_atLeast0)
  have mem: "i \<in> set [0..<n]" using assms(4) by simp
  note w = write_cellFold [where g = g, OF _ bd inj distinct_upt mem]
  show ?thesis
    unfolding filled_def received_def using w [OF gk(1)] w [OF gk(2)] w [OF gk(3)] w [OF gk(4)]
    by simp
qed

lemma received_frame:
  assumes "wf_block s" and "\<forall>j<n. fst (g j) < nx s + 2 \<and> snd (g j) < ny s + 2"
    and "y < ny s + 2" and "(x, y) \<notin> g ` {..<n}"
  shows "elemAt (h (received msg g n s)) x y = elemAt (h s) x y \<and>
         elemAt (hu (received msg g n s)) x y = elemAt (hu s) x y \<and>
         elemAt (hv (received msg g n s)) x y = elemAt (hv s) x y \<and>
         elemAt (b (received msg g n s)) x y = elemAt (b s) x y"
proof -
  have gk: "grid_ok (nx s + 2) (ny s + 2) (h s)" "grid_ok (nx s + 2) (ny s + 2) (hu s)"
    "grid_ok (nx s + 2) (ny s + 2) (hv s)" "grid_ok (nx s + 2) (ny s + 2) (b s)"
    using assms(1) by (simp_all add: wf_block_def)
  have bd: "\<forall>j\<in>set [0..<n]. fst (g j) < nx s + 2 \<and> snd (g j) < ny s + 2" using assms(2) by simp
  have nm: "(x, y) \<notin> g ` set [0..<n]" using assms(4) by (simp add: lessThan_atLeast0)
  note f = cellFold_frame [where g = g and i = g, OF _ bd assms(3) nm]
  show ?thesis
    unfolding received_def using f [OF gk(1)] f [OF gk(2)] f [OF gk(3)] f [OF gk(4)]
    by simp
qed

section \<open>The two sweeps\<close>

lemma xsweep_fold_state:
  "sameCells s t \<Longrightarrow> fold (\<lambda>p. xSweepCell rs (fst p) (snd p)) ps (t, w, calls) =
     (t\<lparr>hNetUpdatesLeft := cellFold (\<lambda>p. p) (\<lambda>p. p) (\<lambda>p v. hUpdateLeft (xRiemann rs s p)) ps (hNetUpdatesLeft t),
        hNetUpdatesRight := cellFold (\<lambda>p. (fst p + 1, snd p)) (\<lambda>p. (fst p + 1, snd p))
                              (\<lambda>p v. hUpdateRight (xRiemann rs s p)) ps (hNetUpdatesRight t),
        huNetUpdatesLeft := cellFold (\<lambda>p. p) (\<lambda>p. p) (\<lambda>p v. huUpdateLeft (xRiemann rs s p)) ps (huNetUpdatesLeft t),
        huNetUpdatesRight := cellFold (\<lambda>p. (fst p + 1, snd p)) (\<lambda>p. (fst p + 1, snd p))
                              (\<lambda>p v. huUpdateRight (xRiemann rs s p)) ps (huNetUpdatesRight t)\<rparr>,
      fold (\<lambda>p w. max w (waveSpeed (xRiemann rs s p))) ps w,
      calls @ ps)"
proof (induction ps arbitrary: t w calls)
  case Nil
  then show ?case by (simp add: cellFold_Nil)
next
  case (Cons p ps)
  obtain t' w' calls' where st: "xSweepCell rs (fst p) (snd p) (t, w, calls) = (t', w', calls')"
    by (metis prod_cases3)
  have sc: "sameCells s t'"
    using Cons.prems st by (auto simp: xSweepCell_def sameCells_def split: prod.splits)
  show ?case
    using st Cons.prems
    by (simp add: Cons.IH [OF sc] cellFold_Cons)
       (auto simp: xSweepCell_def xSolve_def computeNetUpdates_def xRiemann_def sameCells_def)
qed

lemma ysweep_fold_state:
  "sameCells s t \<Longrightarrow> fold (\<lambda>p. ySweepCell rs (fst p) (snd p)) ps (t, w, calls) =
     (t\<lparr>hNetUpdatesBelow := cellFold (\<lambda>p. p) (\<lambda>p. p) (\<lambda>p v. hUpdateLeft (yRiemann rs s p)) ps (hNetUpdatesBelow t),
        hNetUpdatesAbove := cellFold (\<lambda>p. (fst p, snd p + 1)) (\<lambda>p. (fst p, snd p + 1))
                              (\<lambda>p v. hUpdateRight (yRiemann rs s p)) ps (hNetUpdatesAbove t),
        hvNetUpdatesBelow := cellFold (\<lambda>p. p) (\<lambda>p. p) (\<lambda>p v. huUpdateLeft (yRiemann rs s p)) ps (hvNetUpdatesBelow t),
        hvNetUpdatesAbove := cellFold (\<lambda>p. (fst p, snd p + 1)) (\<lambda>p. (fst p, snd p + 1))
                              (\<lambda>p v. huUpdateRight (yRiemann rs s p)) ps (hvNetUpdatesAbove t)\<rparr>,
      fold (\<lambda>p w. max w (waveSpeed (yRiemann rs s p))) ps w,
      calls @ ps)"
proof (induction ps arbitrary: t w calls)
  case Nil
  then show ?case by (simp add: cellFold_Nil)
next
  case (Cons p ps)
  obtain t' w' calls' where st: "ySweepCell rs (fst p) (snd p) (t, w, calls) = (t', w', calls')"
    by (metis prod_cases3)
  have sc: "sameCells s t'"
    using Cons.prems st by (auto simp: ySweepCell_def sameCells_def split: prod.splits)
  show ?case
    using st Cons.prems
    by (simp add: Cons.IH [OF sc] cellFold_Cons)
       (auto simp: ySweepCell_def ySolve_def computeNetUpdates_def yRiemann_def sameCells_def)
qed

lemma fold_max:
  "fold (\<lambda>p w. max w (f p)) ps (w::real) = Max (insert w (f ` set ps))"
proof (induction ps arbitrary: w)
  case Nil
  then show ?case by simp
next
  case (Cons p ps)
  have "Max (insert (max w (f p)) (f ` set ps)) = Max (insert w (insert (f p) (f ` set ps)))"
    by (cases "set ps = {}") (simp_all add: max.assoc max.commute max.left_commute)
  then show ?case by (simp add: Cons.IH)
qed

lemma xSweep_eq:
  "xSweep rs s =
     (xSwept rs s s, Max (insert 0 ((\<lambda>p. waveSpeed (xRiemann rs s p)) ` set (xCells s))), xCells s)"
  unfolding xSweep_def fold_product xSwept_def
  by (subst xsweep_fold_state [where s = s]) (simp_all add: sameCells_def fold_max xCells_def del: upt_Suc)

lemma ySweep_xSwept_eq:
  "ySweep rs (xSwept rs s s) =
     (ySwept rs s (xSwept rs s s), Max (insert 0 ((\<lambda>p. waveSpeed (yRiemann rs s p)) ` set (yCells s))),
      yCells s)"
proof -
  have sc: "sameCells s (xSwept rs s s)" by (simp add: sameCells_def xSwept_def)
  have n: "nx (xSwept rs s s) = nx s" "ny (xSwept rs s s) = ny s" by (simp_all add: xSwept_def)
  show ?thesis
    unfolding ySweep_def fold_product n ySwept_def
    by (subst ysweep_fold_state [OF sc]) (simp_all add: fold_max yCells_def del: upt_Suc)
qed

lemma set_xCells: "set (xCells s) = {0..nx s} \<times> {1..ny s}"
  by (auto simp: xCells_def)

lemma set_yCells: "set (yCells s) = {1..nx s} \<times> {0..ny s}"
  by (auto simp: yCells_def)

lemma distinct_xCells: "distinct (xCells s)"
  by (simp add: xCells_def distinct_product del: upt_Suc)

lemma distinct_yCells: "distinct (yCells s)"
  by (simp add: yCells_def distinct_product del: upt_Suc)

lemma swept_dims:
  "dx (xSwept rs s t) = dx t" "dy (xSwept rs s t) = dy t"
  "dx (ySwept rs s t) = dx t" "dy (ySwept rs s t) = dy t"
  by (simp_all add: xSwept_def ySwept_def)

lemma waveSpeeds_eq:
  "xWaveSpeed rs s = Max (insert 0 ((\<lambda>p. waveSpeed (xRiemann rs s p)) ` set (xCells s)))"
  "yWaveSpeed rs s = Max (insert 0 ((\<lambda>p. waveSpeed (yRiemann rs s p)) ` set (yCells s)))"
  "xCalls rs s = xCells s" "yCalls rs s = yCells s"
  by (simp_all add: xWaveSpeed_def yWaveSpeed_def xCalls_def yCalls_def xSweep_eq ySweep_xSwept_eq)

lemma computeNumericalFluxes_eq:
  "computeNumericalFluxes rs s =
     (if max (xWaveSpeed rs s) (yWaveSpeed rs s) = 0 then Inl NonFiniteTimestep
      else if cflHolds (min (dx s / max (xWaveSpeed rs s) (yWaveSpeed rs s))
                            (dy s / max (xWaveSpeed rs s) (yWaveSpeed rs s)) * 0.4)
                       (dy s) (yWaveSpeed rs s)
      then Inr ((ySwept rs s (xSwept rs s s))
                  \<lparr>maxTimestep := min (dx s / max (xWaveSpeed rs s) (yWaveSpeed rs s))
                                       (dy s / max (xWaveSpeed rs s) (yWaveSpeed rs s)) * 0.4\<rparr>)
      else Inl AssertionFailed)"
  by (simp add: computeNumericalFluxes_def xSweep_eq ySweep_xSwept_eq waveSpeeds_eq swept_dims Let_def)

lemma xLeft_cell:
  assumes "grid_ok (n + 2) (k + 2) F" and "x \<le> n" and "1 \<le> y" and "y \<le> k"
  shows "elemAt (cellFold (\<lambda>p. p) (\<lambda>p. p) (\<lambda>p v. w p) (List.product [0..<n + 1] [1..<k + 1]) F) x y = w (x, y)"
proof -
  let ?ps = "List.product [0..<n + 1] [1..<k + 1]"
  have bd: "\<forall>j\<in>set ?ps. fst j < n + 2 \<and> snd j < k + 2" by auto
  have mem: "(x, y) \<in> set ?ps" using assms(2-) by auto
  have d: "distinct ?ps" by (simp add: distinct_product del: upt_Suc)
  show ?thesis
    using write_cellFold [where g = "\<lambda>p. p" and w = w, OF assms(1) bd _ d mem]
    by (simp del: upt_Suc)
qed

lemma xRight_cell:
  assumes "grid_ok (n + 2) (k + 2) F" and "x \<le> n" and "1 \<le> y" and "y \<le> k"
  shows "elemAt (cellFold (\<lambda>p. (fst p + 1, snd p)) (\<lambda>p. (fst p + 1, snd p)) (\<lambda>p v. w p)
           (List.product [0..<n + 1] [1..<k + 1]) F) (x + 1) y = w (x, y)"
proof -
  let ?ps = "List.product [0..<n + 1] [1..<k + 1]"
  let ?g = "\<lambda>p::nat \<times> nat. (fst p + 1, snd p)"
  have bd: "\<forall>j\<in>set ?ps. fst (?g j) < n + 2 \<and> snd (?g j) < k + 2" by auto
  have mem: "(x, y) \<in> set ?ps" using assms(2-) by auto
  have d: "distinct ?ps" by (simp add: distinct_product del: upt_Suc)
  have inj: "inj_on ?g (set ?ps)" by (auto simp: inj_on_def)
  show ?thesis
    using write_cellFold [where g = ?g and w = w, OF assms(1) bd inj d mem]
    by (simp del: upt_Suc)
qed

lemma yBelow_cell:
  assumes "grid_ok (n + 1) (k + 2) F" and "1 \<le> x" and "x \<le> n" and "y \<le> k"
  shows "elemAt (cellFold (\<lambda>p. p) (\<lambda>p. p) (\<lambda>p v. w p) (List.product [1..<n + 1] [0..<k + 1]) F) x y = w (x, y)"
proof -
  let ?ps = "List.product [1..<n + 1] [0..<k + 1]"
  have bd: "\<forall>j\<in>set ?ps. fst j < n + 1 \<and> snd j < k + 2" by auto
  have mem: "(x, y) \<in> set ?ps" using assms(2-) by auto
  have d: "distinct ?ps" by (simp add: distinct_product del: upt_Suc)
  show ?thesis
    using write_cellFold [where g = "\<lambda>p. p" and w = w, OF assms(1) bd _ d mem]
    by (simp del: upt_Suc)
qed

lemma yAbove_cell:
  assumes "grid_ok (n + 1) (k + 2) F" and "1 \<le> x" and "x \<le> n" and "y \<le> k"
  shows "elemAt (cellFold (\<lambda>p. (fst p, snd p + 1)) (\<lambda>p. (fst p, snd p + 1)) (\<lambda>p v. w p)
           (List.product [1..<n + 1] [0..<k + 1]) F) x (y + 1) = w (x, y)"
proof -
  let ?ps = "List.product [1..<n + 1] [0..<k + 1]"
  let ?g = "\<lambda>p::nat \<times> nat. (fst p, snd p + 1)"
  have bd: "\<forall>j\<in>set ?ps. fst (?g j) < n + 1 \<and> snd (?g j) < k + 2" by auto
  have mem: "(x, y) \<in> set ?ps" using assms(2-) by auto
  have d: "distinct ?ps" by (simp add: distinct_product del: upt_Suc)
  have inj: "inj_on ?g (set ?ps)" by (auto simp: inj_on_def)
  show ?thesis
    using write_cellFold [where g = ?g and w = w, OF assms(1) bd inj d mem]
    by (simp del: upt_Suc)
qed

lemma swept_x_cells:
  assumes "wf_block s" and "computeNumericalFluxes rs s = Inr s'"
    and "x \<le> nx s" and "1 \<le> y" and "y \<le> ny s"
  shows "elemAt (hNetUpdatesLeft s') x y = hUpdateLeft (xRiemann rs s (x, y))"
    and "elemAt (hNetUpdatesRight s') (x + 1) y = hUpdateRight (xRiemann rs s (x, y))"
    and "elemAt (huNetUpdatesLeft s') x y = huUpdateLeft (xRiemann rs s (x, y))"
    and "elemAt (huNetUpdatesRight s') (x + 1) y = huUpdateRight (xRiemann rs s (x, y))"
proof -
  have s': "s' = (ySwept rs s (xSwept rs s s))
                  \<lparr>maxTimestep := min (dx s / max (xWaveSpeed rs s) (yWaveSpeed rs s))
                                       (dy s / max (xWaveSpeed rs s) (yWaveSpeed rs s)) * 0.4\<rparr>"
    using assms(2) by (simp add: computeNumericalFluxes_eq split: if_splits)
  have g: "grid_ok (nx s + 2) (ny s + 2) (hNetUpdatesLeft s)" "grid_ok (nx s + 2) (ny s + 2) (hNetUpdatesRight s)"
    "grid_ok (nx s + 2) (ny s + 2) (huNetUpdatesLeft s)" "grid_ok (nx s + 2) (ny s + 2) (huNetUpdatesRight s)"
    using assms(1) by (simp_all add: wf_block_def)
  show "elemAt (hNetUpdatesLeft s') x y = hUpdateLeft (xRiemann rs s (x, y))"
    unfolding s' using xLeft_cell [OF g(1) assms(3-5)] by (simp add: ySwept_def xSwept_def xCells_def del: upt_Suc)
  show "elemAt (hNetUpdatesRight s') (x + 1) y = hUpdateRight (xRiemann rs s (x, y))"
    unfolding s' using xRight_cell [OF g(2) assms(3-5)] by (simp add: ySwept_def xSwept_def xCells_def del: upt_Suc)
  show "elemAt (huNetUpdatesLeft s') x y = huUpdateLeft (xRiemann rs s (x, y))"
    unfolding s' using xLeft_cell [OF g(3) assms(3-5)] by (simp add: ySwept_def xSwept_def xCells_def del: upt_Suc)
  show "elemAt (huNetUpdatesRight s') (x + 1) y = huUpdateRight (xRiemann rs s (x, y))"
    unfolding s' using xRight_cell [OF g(4) assms(3-5)] by (simp add: ySwept_def xSwept_def xCells_def del: upt_Suc)
qed

lemma swept_y_cells:
  assumes "wf_block s" and "computeNumericalFluxes rs s = Inr s'"
    and "1 \<le> x" and "x \<le> nx s" and "y \<le> ny s"
  shows "elemAt (hNetUpdatesBelow s') x y = hUpdateLeft (yRiemann rs s (x, y))"
    and "elemAt (hNetUpdatesAbove s') x (y + 1) = hUpdateRight (yRiemann rs s (x, y))"
    and "elemAt (hvNetUpdatesBelow s') x y = huUpdateLeft (yRiemann rs s (x, y))"
    and "elemAt (hvNetUpdatesAbove s') x (y + 1) = huUpdateRight (yRiemann rs s (x, y))"
proof -
  have s': "s' = (ySwept rs s (xSwept rs s s))
                  \<lparr>maxTimestep := min (dx s / max (xWaveSpeed rs s) (yWaveSpeed rs s))
                                       (dy s / max (xWaveSpeed rs s) (yWaveSpeed rs s)) * 0.4\<rparr>"
    using assms(2) by (simp add: computeNumericalFluxes_eq split: if_splits)
  have g: "grid_ok (nx s + 1) (ny s + 2) (hNetUpdatesBelow s)" "grid_ok (nx s + 1) (ny s + 2) (hNetUpdatesAbove s)"
    "grid_ok (nx s + 1) (ny s + 2) (hvNetUpdatesBelow s)" "grid_ok (nx s + 1) (ny s + 2) (hvNetUpdatesAbove s)"
    using assms(1) by (simp_all add: wf_block_def)
  show "elemAt (hNetUpdatesBelow s') x y = hUpdateLeft (yRiemann rs s (x, y))"
    unfolding s' using yBelow_cell [OF g(1) assms(3-5)] by (simp add: ySwept_def xSwept_def yCells_def del: upt_Suc)
  show "elemAt (hNetUpdatesAbove s') x (y + 1) = hUpdateRight (yRiemann rs s (x, y))"
    unfolding s' using yAbove_cell [OF g(2) assms(3-5)] by (simp add: ySwept_def xSwept_def yCells_def del: upt_Suc)
  show "elemAt (hvNetUpdatesBelow s') x y = huUpdateLeft (yRiemann rs s (x, y))"
    unfolding s' using yBelow_cell [OF g(3) assms(3-5)] by (simp add: ySwept_def xSwept_def yCells_def del: upt_Suc)
  show "elemAt (hvNetUpdatesAbove s') x (y + 1) = huUpdateRight (yRiemann rs s (x, y))"
    unfolding s' using yAbove_cell [OF g(4) assms(3-5)] by (simp add: ySwept_def xSwept_def yCells_def del: upt_Suc)
qed

lemma ex_speeds: "xWaveSpeed exRiemann exBlock = 1" "yWaveSpeed exRiemann exBlock = 4"
  by code_simp+

lemma ex_fluxes_run: "map_sum id maxTimestep (computeNumericalFluxes exRiemann exBlock) = Inr (1 / 10)"
  by code_simp

text \<open>
  Claim C3. \<open>computeNumericalFluxes\<close> calls the Riemann solver exactly once per
  horizontal cell pair \<open>(x, y)\<close>-\<open>(x+1, y)\<close> for \<open>x\<close> in \<open>[0, nx]\<close> and \<open>y\<close> in
  \<open>[1, ny]\<close>, writes the left-going update into \<open>hNetUpdatesLeft[x][y]\<close>,
  \<open>huNetUpdatesLeft[x][y]\<close> and the right-going update into \<open>hNetUpdatesRight[x+1][y]\<close>,
  \<open>huNetUpdatesRight[x+1][y]\<close>, and \<open>maxHorizontalWaveSpeed\<close> ends as the maximum of
  \<open>0\<close> and the wave speeds of these pairs; and exactly once per vertical pair
  \<open>(x, y)\<close>-\<open>(x, y+1)\<close> for \<open>x\<close> in \<open>[1, nx]\<close> and \<open>y\<close> in \<open>[0, ny]\<close>, writing into
  \<open>hNetUpdatesBelow[x][y]\<close>, \<open>hvNetUpdatesBelow[x][y]\<close>, \<open>hNetUpdatesAbove[x][y+1]\<close>,
  \<open>hvNetUpdatesAbove[x][y+1]\<close>, with \<open>maxVerticalWaveSpeed\<close> the maximum of \<open>0\<close> and
  the wave speeds of those pairs. The solver's inputs are the cells of the block before
  the call.
\<close>

theorem computeNumericalFluxes_sweeps:
  assumes "wf_block s" and "computeNumericalFluxes rs s = Inr s'"
  shows "distinct (xCalls rs s) \<and> set (xCalls rs s) = {0..nx s} \<times> {1..ny s} \<and>
         (\<forall>x\<in>{0..nx s}. \<forall>y\<in>{1..ny s}.
            elemAt (hNetUpdatesLeft s') x y = hUpdateLeft (xRiemann rs s (x, y)) \<and>
            elemAt (huNetUpdatesLeft s') x y = huUpdateLeft (xRiemann rs s (x, y)) \<and>
            elemAt (hNetUpdatesRight s') (x + 1) y = hUpdateRight (xRiemann rs s (x, y)) \<and>
            elemAt (huNetUpdatesRight s') (x + 1) y = huUpdateRight (xRiemann rs s (x, y))) \<and>
         xWaveSpeed rs s =
           Max (insert 0 ((\<lambda>p. waveSpeed (xRiemann rs s p)) ` ({0..nx s} \<times> {1..ny s}))) \<and>
         distinct (yCalls rs s) \<and> set (yCalls rs s) = {1..nx s} \<times> {0..ny s} \<and>
         (\<forall>x\<in>{1..nx s}. \<forall>y\<in>{0..ny s}.
            elemAt (hNetUpdatesBelow s') x y = hUpdateLeft (yRiemann rs s (x, y)) \<and>
            elemAt (hvNetUpdatesBelow s') x y = huUpdateLeft (yRiemann rs s (x, y)) \<and>
            elemAt (hNetUpdatesAbove s') x (y + 1) = hUpdateRight (yRiemann rs s (x, y)) \<and>
            elemAt (hvNetUpdatesAbove s') x (y + 1) = huUpdateRight (yRiemann rs s (x, y))) \<and>
         yWaveSpeed rs s =
           Max (insert 0 ((\<lambda>p. waveSpeed (yRiemann rs s p)) ` ({1..nx s} \<times> {0..ny s})))"
proof -
  have x: "\<forall>x\<in>{0..nx s}. \<forall>y\<in>{1..ny s}.
            elemAt (hNetUpdatesLeft s') x y = hUpdateLeft (xRiemann rs s (x, y)) \<and>
            elemAt (huNetUpdatesLeft s') x y = huUpdateLeft (xRiemann rs s (x, y)) \<and>
            elemAt (hNetUpdatesRight s') (x + 1) y = hUpdateRight (xRiemann rs s (x, y)) \<and>
            elemAt (huNetUpdatesRight s') (x + 1) y = huUpdateRight (xRiemann rs s (x, y))"
    using swept_x_cells [OF assms] by simp
  have y: "\<forall>x\<in>{1..nx s}. \<forall>y\<in>{0..ny s}.
            elemAt (hNetUpdatesBelow s') x y = hUpdateLeft (yRiemann rs s (x, y)) \<and>
            elemAt (hvNetUpdatesBelow s') x y = huUpdateLeft (yRiemann rs s (x, y)) \<and>
            elemAt (hNetUpdatesAbove s') x (y + 1) = hUpdateRight (yRiemann rs s (x, y)) \<and>
            elemAt (hvNetUpdatesAbove s') x (y + 1) = huUpdateRight (yRiemann rs s (x, y))"
    using swept_y_cells [OF assms] by simp
  show ?thesis
    using x y
    by (simp only: waveSpeeds_eq set_xCells set_yCells distinct_xCells distinct_yCells simp_thms)
qed

theorem computeNumericalFluxes_sweeps_witness:
  "wf_block exBlock \<and>
   xCalls exRiemann exBlock = [(0, 1), (1, 1), (2, 1)] \<and>
   yCalls exRiemann exBlock = [(1, 0), (1, 1), (2, 0), (2, 1)] \<and>
   map_sum id (\<lambda>s'. (elemAt (hNetUpdatesLeft s') 1 1, elemAt (hNetUpdatesRight s') 2 1,
                     elemAt (hNetUpdatesBelow s') 2 1, elemAt (hNetUpdatesAbove s') 2 2))
     (computeNumericalFluxes exRiemann exBlock) = Inr (5, 8, 8, 9) \<and>
   xWaveSpeed exRiemann exBlock = 1 \<and> yWaveSpeed exRiemann exBlock = 4"
proof -
  obtain s' where r: "computeNumericalFluxes exRiemann exBlock = Inr s'"
    using ex_fluxes_run by (cases "computeNumericalFluxes exRiemann exBlock") auto
  note t = computeNumericalFluxes_sweeps [OF wf_exBlock r]
  have n: "nx exBlock = 2" "ny exBlock = 1" by (simp_all add: exBlock_def)
  have c: "xCalls exRiemann exBlock = [(0, 1), (1, 1), (2, 1)]"
    "yCalls exRiemann exBlock = [(1, 0), (1, 1), (2, 0), (2, 1)]"
    by code_simp+
  have v: "hUpdateLeft (xRiemann exRiemann exBlock (1, 1)) = 5"
    "hUpdateRight (xRiemann exRiemann exBlock (1, 1)) = 8"
    "hUpdateLeft (yRiemann exRiemann exBlock (2, 1)) = 8"
    "hUpdateRight (yRiemann exRiemann exBlock (2, 1)) = 9"
    by (simp_all add: xRiemann_def yRiemann_def exRiemann_def exBlock_def elemAt_def)
  have "elemAt (hNetUpdatesLeft s') 1 1 = hUpdateLeft (xRiemann exRiemann exBlock (1, 1))"
    "elemAt (hNetUpdatesRight s') 2 1 = hUpdateRight (xRiemann exRiemann exBlock (1, 1))"
    "elemAt (hNetUpdatesBelow s') 2 1 = hUpdateLeft (yRiemann exRiemann exBlock (2, 1))"
    "elemAt (hNetUpdatesAbove s') 2 2 = hUpdateRight (yRiemann exRiemann exBlock (2, 1))"
    using t by (simp_all add: n numeral_2_eq_2)
  then have "(elemAt (hNetUpdatesLeft s') 1 1, elemAt (hNetUpdatesRight s') 2 1,
              elemAt (hNetUpdatesBelow s') 2 1, elemAt (hNetUpdatesAbove s') 2 2) = (5, 8, 8, 9)"
    by (simp only: v)
  then show ?thesis
    using wf_exBlock c r by (simp add: ex_speeds)
qed

text \<open>
  Claim C1, as amended. The claim reads: with final wave speeds \<open>Wx\<close> and \<open>Wy\<close>, both
  positive, \<open>maxTimestep\<close> is \<open>0.4 * min (dx / Wx) (dy / Wy)\<close>. The code divides both
  cell sizes by the same number \<open>max Wx Wy\<close>: on a block with positive cell sizes and
  positive \<open>Wx\<close>, \<open>Wy\<close>, \<open>computeNumericalFluxes\<close> returns (its assertion holds) with
  \<open>maxTimestep = 0.4 * min (dx / max Wx Wy) (dy / max Wx Wy)\<close>, which is
  \<open>0.4 * min dx dy / max Wx Wy\<close>.
\<close>

theorem computeNumericalFluxes_maxTimestep:
  assumes "wf_block s" and "0 < xWaveSpeed rs s" and "0 < yWaveSpeed rs s"
  shows "\<exists>s'. computeNumericalFluxes rs s = Inr s' \<and>
           maxTimestep s' = 0.4 * min (dx s / max (xWaveSpeed rs s) (yWaveSpeed rs s))
                                      (dy s / max (xWaveSpeed rs s) (yWaveSpeed rs s)) \<and>
           maxTimestep s' = 0.4 * min (dx s) (dy s) / max (xWaveSpeed rs s) (yWaveSpeed rs s)"
proof -
  let ?W = "max (xWaveSpeed rs s) (yWaveSpeed rs s)"
  let ?mt = "min (dx s / ?W) (dy s / ?W) * 0.4"
  have W: "0 < ?W" using assms(2) by (simp add: less_max_iff_disj)
  have dy: "0 < dy s" using assms(1) by (simp add: wf_block_def)
  have "min (dx s / ?W) (dy s / ?W) \<le> dy s / ?W" by simp
  then have "?mt \<le> dy s / ?W * 0.4" by (rule mult_right_mono) simp
  also have "\<dots> \<le> dy s / yWaveSpeed rs s * 0.4"
    using dy assms(3) by (simp add: frac_le)
  also have "\<dots> < 0.5 * (dy s / yWaveSpeed rs s)"
    using dy assms(3) by (simp add: field_simps)
  finally have cfl: "cflHolds ?mt (dy s) (yWaveSpeed rs s)"
    using assms(3) by (simp add: cflHolds_def)
  have "\<And>c::real. 0 < c \<Longrightarrow> min (dx s / c) (dy s / c) = min (dx s) (dy s) / c"
    by (auto simp: min_def divide_le_cancel)
  from this [OF W] have m: "min (dx s / ?W) (dy s / ?W) = min (dx s) (dy s) / ?W" .
  show ?thesis
    using W cfl m by (simp add: computeNumericalFluxes_eq)
qed

theorem computeNumericalFluxes_maxTimestep_witness:
  "wf_block exBlock \<and> 0 < xWaveSpeed exRiemann exBlock \<and> 0 < yWaveSpeed exRiemann exBlock \<and>
   map_sum id maxTimestep (computeNumericalFluxes exRiemann exBlock) = Inr (1 / 10)"
proof -
  have p: "0 < xWaveSpeed exRiemann exBlock" "0 < yWaveSpeed exRiemann exBlock"
    by (simp_all add: ex_speeds)
  obtain s' where "computeNumericalFluxes exRiemann exBlock = Inr s'"
    and "maxTimestep s' = 0.4 * min (dx exBlock) (dy exBlock)
                            / max (xWaveSpeed exRiemann exBlock) (yWaveSpeed exRiemann exBlock)"
    using computeNumericalFluxes_maxTimestep [OF wf_exBlock p] by blast
  moreover have "dx exBlock = 1" "dy exBlock = 4" by (simp_all add: exBlock_def)
  ultimately show ?thesis
    using wf_exBlock p by (simp add: ex_speeds)
qed

text \<open>
  The claim as stated fails on the example block: \<open>Wx = 1\<close>, \<open>Wy = 4\<close>, \<open>dx = 1\<close>,
  \<open>dy = 4\<close> give \<open>maxTimestep = 1/10\<close>, where \<open>0.4 * min (dx / Wx) (dy / Wy) = 4/10\<close>.
\<close>

theorem computeNumericalFluxes_maxTimestep_counterexample:
  "xWaveSpeed exRiemann exBlock = 1 \<and> yWaveSpeed exRiemann exBlock = 4 \<and>
   dx exBlock = 1 \<and> dy exBlock = 4 \<and>
   map_sum id maxTimestep (computeNumericalFluxes exRiemann exBlock) = Inr (1 / 10) \<and>
   map_sum id maxTimestep (computeNumericalFluxes exRiemann exBlock) \<noteq>
     Inr (0.4 * min (dx exBlock / xWaveSpeed exRiemann exBlock)
                    (dy exBlock / yWaveSpeed exRiemann exBlock))"
  by (simp add: ex_speeds ex_fluxes_run) (simp add: exBlock_def)

section \<open>Boundary conditions\<close>

lemma ghost_fold_state:
  "fold (\<lambda>j t. t\<lparr>h := elemSet (h t) (gx j) (gy j) (elemAt (h t) (ix j) (iy j)),
                  hu := elemSet (hu t) (gx j) (gy j) (mu (elemAt (hu t) (ix j) (iy j))),
                  hv := elemSet (hv t) (gx j) (gy j) (mv (elemAt (hv t) (ix j) (iy j)))\<rparr>) js t =
   ghosted (\<lambda>j. (gx j, gy j)) (\<lambda>j. (ix j, iy j)) mu mv js t"
  unfolding ghosted_def
  by (induction js arbitrary: t) (simp_all add: cellFold_Nil cellFold_Cons)

lemma ghosted_Nil: "ghosted G I mu mv [] t = t"
  by (simp add: ghosted_def cellFold_Nil)

lemma leftBoundary_eq:
  "leftBoundary s =
     (if boundaryType s BND_LEFT = UNKNOWN_TYPE then Inl AssertionFailed
      else Inr (ghosted (\<lambda>j. (0, j)) (\<lambda>j. (1, j)) (edgeSign (boundaryType s BND_LEFT)) (\<lambda>v. v)
                  (edgeCells (boundaryType s BND_LEFT) (ny s)) s))"
  using ghost_fold_state [where gx = "\<lambda>j. 0" and gy = "\<lambda>j. j" and ix = "\<lambda>j. 1" and iy = "\<lambda>j. j"
      and mu = uminus and mv = "\<lambda>v. v" and js = "[1..<ny s + 1]" and t = s]
    ghost_fold_state [where gx = "\<lambda>j. 0" and gy = "\<lambda>j. j" and ix = "\<lambda>j. 1" and iy = "\<lambda>j. j"
      and mu = "\<lambda>v. v" and mv = "\<lambda>v. v" and js = "[1..<ny s + 1]" and t = s]
  by (cases "boundaryType s BND_LEFT")
     (simp_all add: leftBoundary_def edgeSign_def edgeCells_def ghosted_Nil del: upt_Suc)

lemma rightBoundary_eq:
  "rightBoundary s =
     (if boundaryType s BND_RIGHT = UNKNOWN_TYPE then Inl AssertionFailed
      else Inr (ghosted (\<lambda>j. (nx s + 1, j)) (\<lambda>j. (nx s, j)) (edgeSign (boundaryType s BND_RIGHT)) (\<lambda>v. v)
                  (edgeCells (boundaryType s BND_RIGHT) (ny s)) s))"
  using ghost_fold_state [where gx = "\<lambda>j. nx s + 1" and gy = "\<lambda>j. j" and ix = "\<lambda>j. nx s" and iy = "\<lambda>j. j"
      and mu = uminus and mv = "\<lambda>v. v" and js = "[1..<ny s + 1]" and t = s]
    ghost_fold_state [where gx = "\<lambda>j. nx s + 1" and gy = "\<lambda>j. j" and ix = "\<lambda>j. nx s" and iy = "\<lambda>j. j"
      and mu = "\<lambda>v. v" and mv = "\<lambda>v. v" and js = "[1..<ny s + 1]" and t = s]
  by (cases "boundaryType s BND_RIGHT")
     (simp_all add: rightBoundary_def edgeSign_def edgeCells_def ghosted_Nil del: upt_Suc)

lemma bottomBoundary_eq:
  "bottomBoundary s =
     (if boundaryType s BND_BOTTOM = UNKNOWN_TYPE then Inl AssertionFailed
      else Inr (ghosted (\<lambda>i. (i, 0)) (\<lambda>i. (i, 1)) (\<lambda>v. v) (edgeSign (boundaryType s BND_BOTTOM))
                  (edgeCells (boundaryType s BND_BOTTOM) (nx s)) s))"
  using ghost_fold_state [where gx = "\<lambda>i. i" and gy = "\<lambda>i. 0" and ix = "\<lambda>i. i" and iy = "\<lambda>i. 1"
      and mu = "\<lambda>v. v" and mv = uminus and js = "[1..<nx s + 1]" and t = s]
    ghost_fold_state [where gx = "\<lambda>i. i" and gy = "\<lambda>i. 0" and ix = "\<lambda>i. i" and iy = "\<lambda>i. 1"
      and mu = "\<lambda>v. v" and mv = "\<lambda>v. v" and js = "[1..<nx s + 1]" and t = s]
  by (cases "boundaryType s BND_BOTTOM")
     (simp_all add: bottomBoundary_def edgeSign_def edgeCells_def ghosted_Nil del: upt_Suc)

lemma topBoundary_eq:
  "topBoundary s =
     (if boundaryType s BND_TOP = UNKNOWN_TYPE then Inl AssertionFailed
      else Inr (ghosted (\<lambda>i. (i, ny s + 1)) (\<lambda>i. (i, ny s)) (\<lambda>v. v) (edgeSign (boundaryType s BND_TOP))
                  (edgeCells (boundaryType s BND_TOP) (nx s)) s))"
  using ghost_fold_state [where gx = "\<lambda>i. i" and gy = "\<lambda>i. ny s + 1" and ix = "\<lambda>i. i" and iy = "\<lambda>i. ny s"
      and mu = "\<lambda>v. v" and mv = uminus and js = "[1..<nx s + 1]" and t = s]
    ghost_fold_state [where gx = "\<lambda>i. i" and gy = "\<lambda>i. ny s + 1" and ix = "\<lambda>i. i" and iy = "\<lambda>i. ny s"
      and mu = "\<lambda>v. v" and mv = "\<lambda>v. v" and js = "[1..<nx s + 1]" and t = s]
  by (cases "boundaryType s BND_TOP")
     (simp_all add: topBoundary_def edgeSign_def edgeCells_def ghosted_Nil del: upt_Suc)

lemma cornerGhost_eq:
  "cornerGhost gx gy ix iy s = ghosted (\<lambda>u. (gx, gy)) (\<lambda>u. (ix, iy)) (\<lambda>v. v) (\<lambda>v. v) [()] s"
  by (simp add: cornerGhost_def ghosted_def cellFold_Cons cellFold_Nil)

lemma ghosted_fields:
  "nx (ghosted G I mu mv js t) = nx t" "ny (ghosted G I mu mv js t) = ny t"
  "boundaryType (ghosted G I mu mv js t) = boundaryType t"
  "b (ghosted G I mu mv js t) = b t"
  by (simp_all add: ghosted_def)

lemma ghosted_grids:
  assumes "grid_ok c r (h t) \<and> grid_ok c r (hu t) \<and> grid_ok c r (hv t)"
  shows "grid_ok c r (h (ghosted G I mu mv js t)) \<and> grid_ok c r (hu (ghosted G I mu mv js t)) \<and>
         grid_ok c r (hv (ghosted G I mu mv js t))"
  using assms by (simp add: ghosted_def cellFold_ok)

lemma ghosted_frame:
  assumes "grid_ok c r (h t) \<and> grid_ok c r (hu t) \<and> grid_ok c r (hv t)"
    and "\<forall>j\<in>set js. fst (G j) < c \<and> snd (G j) < r"
    and "snd p < r" and "p \<notin> G ` set js"
  shows "cells (ghosted G I mu mv js t) p = cells t p"
proof -
  have nm: "(fst p, snd p) \<notin> G ` set js" using assms(4) by simp
  note f = cellFold_frame [where g = G and i = I, OF _ assms(2) assms(3) nm]
  show ?thesis using assms(1) by (simp add: cells_def ghosted_def f)
qed

lemma ghosted_at:
  assumes "grid_ok c r (h t) \<and> grid_ok c r (hu t) \<and> grid_ok c r (hv t)"
    and "\<forall>j\<in>set js. fst (G j) < c \<and> snd (G j) < r \<and> snd (I j) < r"
    and "distinct (map G js)" and "\<forall>j\<in>set js. I j \<notin> G ` set js" and "j \<in> set js"
  shows "cells (ghosted G I mu mv js t) (G j) =
           (case cells t (I j) of (a, u, v) \<Rightarrow> (a, mu u, mv v))"
proof -
  have o: "\<forall>p\<in>set js. \<forall>q\<in>set js. I p = G q \<longrightarrow> p = q" using assms(4) by auto
  note a = cellFold_at [where g = G and i = I, OF _ assms(2) assms(3) o assms(5)]
  show ?thesis using assms(1) by (simp add: cells_def ghosted_def a)
qed

lemma edge_fields:
  "nx (leftGhosted s t) = nx t" "ny (leftGhosted s t) = ny t" "boundaryType (leftGhosted s t) = boundaryType t"
  "nx (rightGhosted s t) = nx t" "ny (rightGhosted s t) = ny t" "boundaryType (rightGhosted s t) = boundaryType t"
  "nx (bottomGhosted s t) = nx t" "ny (bottomGhosted s t) = ny t" "boundaryType (bottomGhosted s t) = boundaryType t"
  "nx (topGhosted s t) = nx t" "ny (topGhosted s t) = ny t" "boundaryType (topGhosted s t) = boundaryType t"
  by (simp_all add: leftGhosted_def rightGhosted_def bottomGhosted_def topGhosted_def ghosted_fields)

lemma edge_cong:
  assumes "nx s' = nx s" and "ny s' = ny s" and "boundaryType s' = boundaryType s"
  shows "leftGhosted s' t = leftGhosted s t" "rightGhosted s' t = rightGhosted s t"
    "bottomGhosted s' t = bottomGhosted s t" "topGhosted s' t = topGhosted s t"
    "cornersGhosted s' t = cornersGhosted s t" "knownTypes s' = knownTypes s"
  by (simp_all add: leftGhosted_def rightGhosted_def bottomGhosted_def topGhosted_def
      cornersGhosted_def knownTypes_def assms)

lemma edge_steps:
  "leftBoundary t = (if boundaryType t BND_LEFT = UNKNOWN_TYPE then Inl AssertionFailed
                     else Inr (leftGhosted t t))"
  "rightBoundary t = (if boundaryType t BND_RIGHT = UNKNOWN_TYPE then Inl AssertionFailed
                      else Inr (rightGhosted t t))"
  "bottomBoundary t = (if boundaryType t BND_BOTTOM = UNKNOWN_TYPE then Inl AssertionFailed
                       else Inr (bottomGhosted t t))"
  "topBoundary t = (if boundaryType t BND_TOP = UNKNOWN_TYPE then Inl AssertionFailed
                    else Inr (topGhosted t t))"
  "cornerGhosts t = cornersGhosted t t"
  unfolding leftBoundary_eq rightBoundary_eq bottomBoundary_eq topBoundary_eq
    leftGhosted_def rightGhosted_def bottomGhosted_def topGhosted_def cornerGhosts_def cornersGhosted_def
  by (rule refl)+

lemma applyBoundaryConditions_eq:
  "applyBoundaryConditions s =
     (if knownTypes s
      then Inr (cornersGhosted s (topGhosted s (bottomGhosted s (rightGhosted s (leftGhosted s s)))))
      else Inl AssertionFailed)"
proof -
  let ?s1 = "leftGhosted s s"
  let ?s2 = "rightGhosted s ?s1"
  let ?s3 = "bottomGhosted s ?s2"
  let ?s4 = "topGhosted s ?s3"
  have f1: "nx ?s1 = nx s" "ny ?s1 = ny s" "boundaryType ?s1 = boundaryType s"
    by (simp_all only: edge_fields)
  have f2: "nx ?s2 = nx s" "ny ?s2 = ny s" "boundaryType ?s2 = boundaryType s"
    by (simp_all only: edge_fields)
  have f3: "nx ?s3 = nx s" "ny ?s3 = ny s" "boundaryType ?s3 = boundaryType s"
    by (simp_all only: edge_fields)
  have f4: "nx ?s4 = nx s" "ny ?s4 = ny s" "boundaryType ?s4 = boundaryType s"
    by (simp_all only: edge_fields)
  have r: "rightBoundary ?s1 = (if boundaryType s BND_RIGHT = UNKNOWN_TYPE then Inl AssertionFailed else Inr ?s2)"
    by (simp only: edge_steps(2) edge_cong(2) [OF f1] f1)
  have bt: "bottomBoundary ?s2 = (if boundaryType s BND_BOTTOM = UNKNOWN_TYPE then Inl AssertionFailed else Inr ?s3)"
    by (simp only: edge_steps(3) edge_cong(3) [OF f2] f2)
  have tp: "topBoundary ?s3 = (if boundaryType s BND_TOP = UNKNOWN_TYPE then Inl AssertionFailed else Inr ?s4)"
    by (simp only: edge_steps(4) edge_cong(4) [OF f3] f3)
  have c: "cornerGhosts ?s4 = cornersGhosted s ?s4"
    by (simp only: edge_steps(5) edge_cong(5) [OF f4])
  show ?thesis
    unfolding applyBoundaryConditions_def andThen_def edge_steps(1)
    by (auto simp: r bt tp c knownTypes_def)
qed

lemma grids3_ghosted: "grids3 s t \<Longrightarrow> grids3 s (ghosted G I mu mv js t)"
  unfolding grids3_def by (rule ghosted_grids)

lemma edge_ok:
  assumes "grids3 s t"
  shows "grids3 s (leftGhosted s t)" "grids3 s (rightGhosted s t)"
    "grids3 s (bottomGhosted s t)" "grids3 s (topGhosted s t)" "grids3 s (cornersGhosted s t)"
  using assms
  by (simp_all add: leftGhosted_def rightGhosted_def bottomGhosted_def topGhosted_def
      cornersGhosted_def cornerGhost_eq grids3_ghosted)

lemma set_edgeCells: "set (edgeCells ty n) \<subseteq> {1..n}"
  by (auto simp: edgeCells_def)

lemma distinct_edgeCells: "distinct (edgeCells ty n)"
  by (simp add: edgeCells_def del: upt_Suc)

lemma left_frame:
  assumes "grids3 s t" and "snd p < ny s + 2" and "\<not> (fst p = 0 \<and> 1 \<le> snd p \<and> snd p \<le> ny s)"
  shows "cells (leftGhosted s t) p = cells t p"
  unfolding leftGhosted_def
proof (rule ghosted_frame [OF assms(1) [unfolded grids3_def] _ assms(2)])
  show "\<forall>j\<in>set (edgeCells (boundaryType s BND_LEFT) (ny s)). fst (0::nat, j) < nx s + 2 \<and> snd (0::nat, j) < ny s + 2"
    using set_edgeCells [of "boundaryType s BND_LEFT" "ny s"] by auto
  show "p \<notin> (\<lambda>j. (0, j)) ` set (edgeCells (boundaryType s BND_LEFT) (ny s))"
    using assms(3) set_edgeCells [of "boundaryType s BND_LEFT" "ny s"] by auto
qed

lemma right_frame:
  assumes "grids3 s t" and "snd p < ny s + 2" and "\<not> (fst p = nx s + 1 \<and> 1 \<le> snd p \<and> snd p \<le> ny s)"
  shows "cells (rightGhosted s t) p = cells t p"
  unfolding rightGhosted_def
proof (rule ghosted_frame [OF assms(1) [unfolded grids3_def] _ assms(2)])
  show "\<forall>j\<in>set (edgeCells (boundaryType s BND_RIGHT) (ny s)). fst (nx s + 1, j) < nx s + 2 \<and> snd (nx s + 1, j) < ny s + 2"
    using set_edgeCells [of "boundaryType s BND_RIGHT" "ny s"] by auto
  show "p \<notin> (\<lambda>j. (nx s + 1, j)) ` set (edgeCells (boundaryType s BND_RIGHT) (ny s))"
    using assms(3) set_edgeCells [of "boundaryType s BND_RIGHT" "ny s"] by auto
qed

lemma bottom_frame:
  assumes "grids3 s t" and "snd p < ny s + 2" and "\<not> (snd p = 0 \<and> 1 \<le> fst p \<and> fst p \<le> nx s)"
  shows "cells (bottomGhosted s t) p = cells t p"
  unfolding bottomGhosted_def
proof (rule ghosted_frame [OF assms(1) [unfolded grids3_def] _ assms(2)])
  show "\<forall>j\<in>set (edgeCells (boundaryType s BND_BOTTOM) (nx s)). fst (j, 0::nat) < nx s + 2 \<and> snd (j, 0::nat) < ny s + 2"
    using set_edgeCells [of "boundaryType s BND_BOTTOM" "nx s"] by auto
  show "p \<notin> (\<lambda>i. (i, 0)) ` set (edgeCells (boundaryType s BND_BOTTOM) (nx s))"
    using assms(3) set_edgeCells [of "boundaryType s BND_BOTTOM" "nx s"] by auto
qed

lemma top_frame:
  assumes "grids3 s t" and "snd p < ny s + 2" and "\<not> (snd p = ny s + 1 \<and> 1 \<le> fst p \<and> fst p \<le> nx s)"
  shows "cells (topGhosted s t) p = cells t p"
  unfolding topGhosted_def
proof (rule ghosted_frame [OF assms(1) [unfolded grids3_def] _ assms(2)])
  show "\<forall>j\<in>set (edgeCells (boundaryType s BND_TOP) (nx s)). fst (j, ny s + 1) < nx s + 2 \<and> snd (j, ny s + 1) < ny s + 2"
    using set_edgeCells [of "boundaryType s BND_TOP" "nx s"] by auto
  show "p \<notin> (\<lambda>i. (i, ny s + 1)) ` set (edgeCells (boundaryType s BND_TOP) (nx s))"
    using assms(3) set_edgeCells [of "boundaryType s BND_TOP" "nx s"] by auto
qed

lemma corner_frame:
  assumes "grids3 s t" and "snd p < ny s + 2" and "gx < nx s + 2" and "gy < ny s + 2" and "p \<noteq> (gx, gy)"
  shows "cells (cornerGhost gx gy ix iy t) p = cells t p"
  unfolding cornerGhost_eq
  by (rule ghosted_frame [OF assms(1) [unfolded grids3_def] _ assms(2)]) (use assms in auto)

lemma corners_frame:
  assumes "grids3 s t" and "snd p < ny s + 2"
    and "p \<noteq> (0, 0)" and "p \<noteq> (0, ny s + 1)" and "p \<noteq> (nx s + 1, 0)" and "p \<noteq> (nx s + 1, ny s + 1)"
  shows "cells (cornersGhosted s t) p = cells t p"
proof -
  let ?t1 = "cornerGhost 0 0 1 1 t"
  let ?t2 = "cornerGhost 0 (ny s + 1) 1 (ny s) ?t1"
  let ?t3 = "cornerGhost (nx s + 1) 0 (nx s) 1 ?t2"
  have g1: "grids3 s ?t1" using assms(1) by (simp add: cornerGhost_eq grids3_ghosted)
  have g2: "grids3 s ?t2" using g1 by (simp add: cornerGhost_eq grids3_ghosted)
  have g3: "grids3 s ?t3" using g2 by (simp add: cornerGhost_eq grids3_ghosted)
  have "cells (cornersGhosted s t) p = cells ?t3 p"
    unfolding cornersGhosted_def using assms(6) by (intro corner_frame [OF g3 assms(2)]) simp_all
  also have "\<dots> = cells ?t2 p" using assms(5) by (intro corner_frame [OF g2 assms(2)]) simp_all
  also have "\<dots> = cells ?t1 p" using assms(4) by (intro corner_frame [OF g1 assms(2)]) simp_all
  also have "\<dots> = cells t p" using assms(3) by (intro corner_frame [OF assms(1) assms(2)]) simp_all
  finally show ?thesis .
qed

lemma edgeCells_mem: "ty = WALL \<or> ty = OUTFLOW \<Longrightarrow> 1 \<le> k \<Longrightarrow> k \<le> n \<Longrightarrow> k \<in> set (edgeCells ty n)"
  by (auto simp: edgeCells_def)

lemma left_at:
  assumes "grids3 s t" and "boundaryType s BND_LEFT = WALL \<or> boundaryType s BND_LEFT = OUTFLOW"
    and "1 \<le> k" and "k \<le> ny s"
  shows "cells (leftGhosted s t) (0, k) =
           (case cells t (1, k) of (a, u, v) \<Rightarrow> (a, edgeSign (boundaryType s BND_LEFT) u, v))"
  unfolding leftGhosted_def
proof (rule ghosted_at [where G = "\<lambda>j. (0, j)" and I = "\<lambda>j. (1, j)" and j = k, OF assms(1) [unfolded grids3_def]])
  let ?js = "edgeCells (boundaryType s BND_LEFT) (ny s)"
  show "\<forall>j\<in>set ?js. fst (0::nat, j) < nx s + 2 \<and> snd (0::nat, j) < ny s + 2 \<and> snd (1::nat, j) < ny s + 2"
    using set_edgeCells [of "boundaryType s BND_LEFT" "ny s"] by auto
  show "distinct (map (Pair (0::nat)) ?js)" by (simp add: distinct_map distinct_edgeCells inj_on_def)
  show "\<forall>j\<in>set ?js. (1::nat, j) \<notin> Pair (0::nat) ` set ?js" by auto
  show "k \<in> set ?js" using assms(2-) by (rule edgeCells_mem)
qed

lemma right_at:
  assumes "grids3 s t" and "boundaryType s BND_RIGHT = WALL \<or> boundaryType s BND_RIGHT = OUTFLOW"
    and "1 \<le> k" and "k \<le> ny s"
  shows "cells (rightGhosted s t) (nx s + 1, k) =
           (case cells t (nx s, k) of (a, u, v) \<Rightarrow> (a, edgeSign (boundaryType s BND_RIGHT) u, v))"
  unfolding rightGhosted_def
proof (rule ghosted_at [where G = "\<lambda>j. (nx s + 1, j)" and I = "\<lambda>j. (nx s, j)" and j = k, OF assms(1) [unfolded grids3_def]])
  let ?js = "edgeCells (boundaryType s BND_RIGHT) (ny s)"
  show "\<forall>j\<in>set ?js. fst (nx s + 1, j) < nx s + 2 \<and> snd (nx s + 1, j) < ny s + 2 \<and> snd (nx s, j) < ny s + 2"
    using set_edgeCells [of "boundaryType s BND_RIGHT" "ny s"] by auto
  show "distinct (map (Pair (nx s + 1)) ?js)" by (simp add: distinct_map distinct_edgeCells inj_on_def)
  show "\<forall>j\<in>set ?js. (nx s, j) \<notin> Pair (nx s + 1) ` set ?js" by auto
  show "k \<in> set ?js" using assms(2-) by (rule edgeCells_mem)
qed

lemma bottom_at:
  assumes "grids3 s t" and "boundaryType s BND_BOTTOM = WALL \<or> boundaryType s BND_BOTTOM = OUTFLOW"
    and "1 \<le> k" and "k \<le> nx s"
  shows "cells (bottomGhosted s t) (k, 0) =
           (case cells t (k, 1) of (a, u, v) \<Rightarrow> (a, u, edgeSign (boundaryType s BND_BOTTOM) v))"
  unfolding bottomGhosted_def
proof (rule ghosted_at [where G = "\<lambda>i. (i, 0)" and I = "\<lambda>i. (i, 1)" and j = k, OF assms(1) [unfolded grids3_def]])
  let ?js = "edgeCells (boundaryType s BND_BOTTOM) (nx s)"
  show "\<forall>j\<in>set ?js. fst (j, 0::nat) < nx s + 2 \<and> snd (j, 0::nat) < ny s + 2 \<and> snd (j, 1::nat) < ny s + 2"
    using set_edgeCells [of "boundaryType s BND_BOTTOM" "nx s"] by auto
  show "distinct (map (\<lambda>i. (i, 0::nat)) ?js)" by (simp add: distinct_map distinct_edgeCells inj_on_def)
  show "\<forall>j\<in>set ?js. (j, 1::nat) \<notin> (\<lambda>i. (i, 0::nat)) ` set ?js" by auto
  show "k \<in> set ?js" using assms(2-) by (rule edgeCells_mem)
qed

lemma top_at:
  assumes "grids3 s t" and "boundaryType s BND_TOP = WALL \<or> boundaryType s BND_TOP = OUTFLOW"
    and "1 \<le> k" and "k \<le> nx s"
  shows "cells (topGhosted s t) (k, ny s + 1) =
           (case cells t (k, ny s) of (a, u, v) \<Rightarrow> (a, u, edgeSign (boundaryType s BND_TOP) v))"
  unfolding topGhosted_def
proof (rule ghosted_at [where G = "\<lambda>i. (i, ny s + 1)" and I = "\<lambda>i. (i, ny s)" and j = k, OF assms(1) [unfolded grids3_def]])
  let ?js = "edgeCells (boundaryType s BND_TOP) (nx s)"
  show "\<forall>j\<in>set ?js. fst (j, ny s + 1) < nx s + 2 \<and> snd (j, ny s + 1) < ny s + 2 \<and> snd (j, ny s) < ny s + 2"
    using set_edgeCells [of "boundaryType s BND_TOP" "nx s"] by auto
  show "distinct (map (\<lambda>i. (i, ny s + 1)) ?js)" by (simp add: distinct_map distinct_edgeCells inj_on_def)
  show "\<forall>j\<in>set ?js. (j, ny s) \<notin> (\<lambda>i. (i, ny s + 1)) ` set ?js" by auto
  show "k \<in> set ?js" using assms(2-) by (rule edgeCells_mem)
qed

lemma edge_passive:
  "boundaryType s BND_LEFT = CONNECT \<or> boundaryType s BND_LEFT = PASSIVE \<Longrightarrow> leftGhosted s t = t"
  "boundaryType s BND_RIGHT = CONNECT \<or> boundaryType s BND_RIGHT = PASSIVE \<Longrightarrow> rightGhosted s t = t"
  "boundaryType s BND_BOTTOM = CONNECT \<or> boundaryType s BND_BOTTOM = PASSIVE \<Longrightarrow> bottomGhosted s t = t"
  "boundaryType s BND_TOP = CONNECT \<or> boundaryType s BND_TOP = PASSIVE \<Longrightarrow> topGhosted s t = t"
  by (auto simp: leftGhosted_def rightGhosted_def bottomGhosted_def topGhosted_def edgeCells_def ghosted_Nil)

lemma wf_grids3: "wf_block s \<Longrightarrow> grids3 s s"
  by (simp add: wf_block_def grids3_def)

lemma bc_interior:
  assumes "grids3 s s" and "1 \<le> fst p" and "fst p \<le> nx s" and "1 \<le> snd p" and "snd p \<le> ny s"
  shows "cells (cornersGhosted s (topGhosted s (bottomGhosted s (rightGhosted s (leftGhosted s s))))) p = cells s p"
  using assms
  by (cases p) (simp add: corners_frame top_frame bottom_frame right_frame left_frame edge_ok)

lemma bc_left:
  assumes "grids3 s s" and "1 \<le> k" and "k \<le> ny s"
  shows "cells (cornersGhosted s (topGhosted s (bottomGhosted s (rightGhosted s (leftGhosted s s))))) (0, k)
         = cells (leftGhosted s s) (0, k)"
  using assms
  by (simp add: corners_frame top_frame bottom_frame right_frame edge_ok)

lemma bc_right:
  assumes "grids3 s s" and "1 \<le> k" and "k \<le> ny s"
  shows "cells (cornersGhosted s (topGhosted s (bottomGhosted s (rightGhosted s (leftGhosted s s))))) (nx s + 1, k)
         = cells (rightGhosted s (leftGhosted s s)) (nx s + 1, k)"
  using assms
  by (simp add: corners_frame top_frame bottom_frame edge_ok)

lemma bc_bottom:
  assumes "grids3 s s" and "1 \<le> k" and "k \<le> nx s"
  shows "cells (cornersGhosted s (topGhosted s (bottomGhosted s (rightGhosted s (leftGhosted s s))))) (k, 0)
         = cells (bottomGhosted s (rightGhosted s (leftGhosted s s))) (k, 0)"
  using assms
  by (simp add: corners_frame top_frame edge_ok)

lemma bc_top:
  assumes "grids3 s s" and "1 \<le> k" and "k \<le> nx s"
  shows "cells (cornersGhosted s (topGhosted s (bottomGhosted s (rightGhosted s (leftGhosted s s))))) (k, ny s + 1)
         = cells (topGhosted s (bottomGhosted s (rightGhosted s (leftGhosted s s)))) (k, ny s + 1)"
  using assms
  by (simp add: corners_frame edge_ok)

lemma bc_before_right:
  assumes "grids3 s s" and "1 \<le> nx s" and "1 \<le> k" and "k \<le> ny s"
  shows "cells (leftGhosted s s) (nx s, k) = cells s (nx s, k)"
    and "cells (leftGhosted s s) (nx s + 1, k) = cells s (nx s + 1, k)"
  using assms by (simp_all add: left_frame)

lemma bc_before_bottom:
  assumes "grids3 s s" and "1 \<le> ny s" and "1 \<le> k" and "k \<le> nx s"
  shows "cells (rightGhosted s (leftGhosted s s)) (k, 1) = cells s (k, 1)"
    and "cells (rightGhosted s (leftGhosted s s)) (k, 0) = cells s (k, 0)"
  using assms by (simp_all add: left_frame right_frame edge_ok)

lemma bc_before_top:
  assumes "grids3 s s" and "1 \<le> ny s" and "1 \<le> k" and "k \<le> nx s"
  shows "cells (bottomGhosted s (rightGhosted s (leftGhosted s s))) (k, ny s) = cells s (k, ny s)"
    and "cells (bottomGhosted s (rightGhosted s (leftGhosted s s))) (k, ny s + 1) = cells s (k, ny s + 1)"
  using assms by (simp_all add: left_frame right_frame bottom_frame edge_ok)

text \<open>
  Claim C4. After \<open>applyBoundaryConditions\<close>, for every edge \<open>e\<close> and every strip index
  \<open>k\<close> in \<open>[1, ny]\<close> (left, right) or \<open>[1, nx]\<close> (bottom, top): on a \<open>WALL\<close> edge the
  ghost cell has the \<open>h\<close> and the tangential momentum of the adjacent interior cell and
  the negated normal momentum (\<open>hu\<close> on the left and right, \<open>hv\<close> at the bottom and top);
  on an \<open>OUTFLOW\<close> edge it has the interior cell's \<open>h\<close>, \<open>hu\<close>, \<open>hv\<close>; on a \<open>CONNECT\<close>
  or \<open>PASSIVE\<close> edge it is as before the call. The interior cell itself is as before
  the call. The block has at least one interior cell in each direction.
\<close>

theorem applyBoundaryConditions_ghosts:
  assumes "wf_block s" and "1 \<le> nx s" and "1 \<le> ny s"
    and "applyBoundaryConditions s = Inr s'" and "1 \<le> k" and "k \<le> stripLength s e"
  shows "(boundaryType s e = WALL \<longrightarrow>
            cells s' (ghostCell s e k) = wallMirror e (cells s' (innerCell s e k))) \<and>
         (boundaryType s e = OUTFLOW \<longrightarrow>
            cells s' (ghostCell s e k) = cells s' (innerCell s e k)) \<and>
         (boundaryType s e = CONNECT \<or> boundaryType s e = PASSIVE \<longrightarrow>
            cells s' (ghostCell s e k) = cells s (ghostCell s e k)) \<and>
         cells s' (innerCell s e k) = cells s (innerCell s e k)"
proof -
  let ?s1 = "leftGhosted s s"
  let ?s2 = "rightGhosted s ?s1"
  let ?s3 = "bottomGhosted s ?s2"
  let ?s4 = "topGhosted s ?s3"
  have g: "grids3 s s" using assms(1) by (rule wf_grids3)
  have s': "s' = cornersGhosted s ?s4"
    using assms(4) by (simp add: applyBoundaryConditions_eq split: if_splits)
  show ?thesis
  proof (cases e)
    case BND_LEFT
    have k: "k \<le> ny s" using assms(6) BND_LEFT by (simp add: stripLength_def)
    have i: "cells s' (1, k) = cells s (1, k)"
      unfolding s' using bc_interior [OF g, of "(1, k)"] assms(2,5) k by simp
    have gh: "cells s' (0, k) = cells ?s1 (0, k)"
      unfolding s' by (rule bc_left [OF g assms(5) k])
    show ?thesis
      using i gh left_at [OF g _ assms(5) k] edge_passive(1) [of s s]
      by (auto simp: BND_LEFT ghostCell_def innerCell_def wallMirror_def edgeSign_def split: prod.splits)
  next
    case BND_RIGHT
    have k: "k \<le> ny s" using assms(6) BND_RIGHT by (simp add: stripLength_def)
    have i: "cells s' (nx s, k) = cells s (nx s, k)"
      unfolding s' using bc_interior [OF g, of "(nx s, k)"] assms(2,5) k by simp
    have gh: "cells s' (nx s + 1, k) = cells ?s2 (nx s + 1, k)"
      unfolding s' by (rule bc_right [OF g assms(5) k])
    have g1: "grids3 s ?s1" using g by (rule edge_ok)
    show ?thesis
      using i gh right_at [OF g1 _ assms(5) k] edge_passive(2) [of s ?s1]
        bc_before_right [OF g assms(2) assms(5) k]
      by (auto simp: BND_RIGHT ghostCell_def innerCell_def wallMirror_def edgeSign_def split: prod.splits)
  next
    case BND_BOTTOM
    have k: "k \<le> nx s" using assms(6) BND_BOTTOM by (simp add: stripLength_def)
    have i: "cells s' (k, 1) = cells s (k, 1)"
      unfolding s' using bc_interior [OF g, of "(k, 1)"] assms(3,5) k by simp
    have gh: "cells s' (k, 0) = cells ?s3 (k, 0)"
      unfolding s' by (rule bc_bottom [OF g assms(5) k])
    have g2: "grids3 s ?s2" using g by (intro edge_ok)
    show ?thesis
      using i gh bottom_at [OF g2 _ assms(5) k] edge_passive(3) [of s ?s2]
        bc_before_bottom [OF g assms(3) assms(5) k]
      by (auto simp: BND_BOTTOM ghostCell_def innerCell_def wallMirror_def edgeSign_def split: prod.splits)
  next
    case BND_TOP
    have k: "k \<le> nx s" using assms(6) BND_TOP by (simp add: stripLength_def)
    have i: "cells s' (k, ny s) = cells s (k, ny s)"
      unfolding s' using bc_interior [OF g, of "(k, ny s)"] assms(3,5) k by simp
    have gh: "cells s' (k, ny s + 1) = cells ?s4 (k, ny s + 1)"
      unfolding s' by (rule bc_top [OF g assms(5) k])
    have g3: "grids3 s ?s3" using g by (intro edge_ok)
    show ?thesis
      using i gh top_at [OF g3 _ assms(5) k] edge_passive(4) [of s ?s3]
        bc_before_top [OF g assms(3) assms(5) k]
      by (auto simp: BND_TOP ghostCell_def innerCell_def wallMirror_def edgeSign_def split: prod.splits)
  qed
qed

section \<open>Sending copy layers\<close>





section \<open>Bathymetry\<close>

lemma keepsInterior_cellFold:
  assumes "keepsInterior s F F'" and "\<forall>j\<in>set js. isGhost s (G j)"
  shows "keepsInterior s F (cellFold G I m js F')"
proof -
  have ok: "grid_ok (nx s + 2) (ny s + 2) F'" using assms(1) by (simp add: keepsInterior_def)
  have bd: "\<forall>j\<in>set js. fst (G j) < nx s + 2 \<and> snd (G j) < ny s + 2"
    using assms(2) by (simp add: isGhost_def)
  have "elemAt (cellFold G I m js F') x y = elemAt F x y"
    if "1 \<le> x" "x \<le> nx s" "1 \<le> y" "y \<le> ny s" for x y
  proof -
    have "(x, y) \<notin> G ` set js"
    proof
      assume "(x, y) \<in> G ` set js"
      then obtain j where "j \<in> set js" "G j = (x, y)" by auto
      then have "isGhost s (x, y)" using assms(2) by metis
      then show False using that by (simp add: isGhost_def)
    qed
    then have "elemAt (cellFold G I m js F') x y = elemAt F' x y"
      using that by (intro cellFold_frame [OF ok bd]) simp_all
    then show ?thesis using assms(1) that by (simp add: keepsInterior_def)
  qed
  then show ?thesis using cellFold_ok [OF ok] by (simp add: keepsInterior_def)
qed

lemma keepsInterior_bathStep:
  assumes "keepsInterior s F (b t)" and "\<forall>j\<in>set js. isGhost s (G j)"
  shows "keepsInterior s F (b (bathStep c G I js t))"
  using assms by (simp add: bathStep_def keepsInterior_cellFold)

lemma bath_fold_state:
  "fold (\<lambda>j t. t\<lparr>b := elemSet (b t) (gx j) (gy j) (elemAt (b t) (ix j) (iy j))\<rparr>) js t =
   t\<lparr>b := cellFold (\<lambda>j. (gx j, gy j)) (\<lambda>j. (ix j, iy j)) (\<lambda>j v. v) js (b t)\<rparr>"
  by (induction js arbitrary: t) (simp_all add: cellFold_Nil cellFold_Cons)

lemma bath_corner:
  "t\<lparr>b := elemSet (b t) gx gy (elemAt (b t) ix iy)\<rparr> =
   bathStep True (\<lambda>u. (gx, gy)) (\<lambda>u. (ix, iy)) [()] t"
  by (simp add: bathStep_def cellFold_Cons cellFold_Nil)

lemma applyBoundaryBathymetry_eq:
  "applyBoundaryBathymetry s =
     bathStep True (\<lambda>u. (nx s + 1, ny s + 1)) (\<lambda>u. (nx s, ny s)) [()]
    (bathStep True (\<lambda>u. (nx s + 1, 0)) (\<lambda>u. (nx s, 1)) [()]
    (bathStep True (\<lambda>u. (0, ny s + 1)) (\<lambda>u. (1, ny s)) [()]
    (bathStep True (\<lambda>u. (0, 0)) (\<lambda>u. (1, 1)) [()]
    (bathStep (boundaryType s BND_TOP = OUTFLOW \<or> boundaryType s BND_TOP = WALL)
       (\<lambda>i. (i, ny s + 1)) (\<lambda>i. (i, ny s)) [0..<nx s + 2]
    (bathStep (boundaryType s BND_BOTTOM = OUTFLOW \<or> boundaryType s BND_BOTTOM = WALL)
       (\<lambda>i. (i, 0)) (\<lambda>i. (i, 1)) [0..<nx s + 2]
    (bathStep (boundaryType s BND_RIGHT = OUTFLOW \<or> boundaryType s BND_RIGHT = WALL)
       (\<lambda>j. (nx s + 1, j)) (\<lambda>j. (nx s, j)) [0..<ny s + 2]
    (bathStep (boundaryType s BND_LEFT = OUTFLOW \<or> boundaryType s BND_LEFT = WALL)
       (\<lambda>j. (0, j)) (\<lambda>j. (1, j)) [0..<ny s + 2] s)))))))"
  unfolding applyBoundaryBathymetry_def Let_def
  unfolding bath_fold_state
  unfolding bath_corner
  unfolding bathStep_def
  by (rule refl)

lemma applyBoundaryBathymetry_interior:
  assumes "wf_block s"
  shows "keepsInterior s (b s) (b (applyBoundaryBathymetry s))"
proof -
  have k0: "keepsInterior s (b s) (b s)" using assms by (simp add: keepsInterior_def wf_block_def)
  show ?thesis
    unfolding applyBoundaryBathymetry_eq
    by (intro keepsInterior_bathStep k0) (auto simp: isGhost_def)
qed

lemma processCopyLayer_interior:
  assumes "wf_block s" and "1 \<le> x" and "x \<le> nx s" and "1 \<le> y" and "y \<le> ny s"
  shows "elemAt (b (processCopyLayer msg s)) x y = elemAt (b s) x y"
proof -
  have y: "y < ny s + 2" using assms(5) by simp
  have "elemAt (b (received msg G n s)) x y = elemAt (b s) x y"
    if "\<forall>j<n. isGhost s (G j)" for G n
  proof -
    have bd: "\<forall>j<n. fst (G j) < nx s + 2 \<and> snd (G j) < ny s + 2"
      using that by (simp add: isGhost_def)
    have "(x, y) \<notin> G ` {..<n}"
    proof
      assume "(x, y) \<in> G ` {..<n}"
      then obtain j where "j < n" "G j = (x, y)" by auto
      then have "isGhost s (x, y)" using that by metis
      then show False using assms(2-) by (simp add: isGhost_def)
    qed
    then show ?thesis using received_frame [OF assms(1) bd y] by simp
  qed
  note f = this
  show ?thesis
    unfolding processCopyLayer_eq
    by (auto intro!: f simp: isGhost_def)
qed

lemma edge_b:
  "b (leftGhosted s t) = b t" "b (rightGhosted s t) = b t" "b (bottomGhosted s t) = b t"
  "b (topGhosted s t) = b t" "b (cornersGhosted s t) = b t"
  by (simp_all add: leftGhosted_def rightGhosted_def bottomGhosted_def topGhosted_def
      cornersGhosted_def cornerGhost_eq ghosted_fields)

lemma applyBoundaryConditions_b:
  assumes "applyBoundaryConditions s = Inr s'"
  shows "b s' = b s"
proof -
  have "s' = cornersGhosted s (topGhosted s (bottomGhosted s (rightGhosted s (leftGhosted s s))))"
    using assms by (simp add: applyBoundaryConditions_eq split: if_splits)
  then show ?thesis by (simp only: edge_b)
qed

text \<open>
  Claim C9. Neither \<open>computeNumericalFluxes\<close> nor \<open>updateUnknowns\<close> (nor
  \<open>applyBoundaryConditions\<close>) changes any element of \<open>b\<close>: the field after the call is
  the field before it. The two operations that do write \<open>b\<close> after initialisation,
  \<open>applyBoundaryBathymetry\<close> and \<open>processCopyLayer\<close>, leave every interior cell
  \<open>b[1..nx][1..ny]\<close> as it was.
\<close>

theorem bathymetry_unchanged:
  "(computeNumericalFluxes rs s = Inr s1 \<longrightarrow> b s1 = b s) \<and>
   (updateUnknowns dt s = Inr s2 \<longrightarrow> b s2 = b s) \<and>
   (applyBoundaryConditions s = Inr s3 \<longrightarrow> b s3 = b s) \<and>
   (wf_block s \<longrightarrow>
      (\<forall>x\<in>{1..nx s}. \<forall>y\<in>{1..ny s}.
         elemAt (b (applyBoundaryBathymetry s)) x y = elemAt (b s) x y \<and>
         elemAt (b (processCopyLayer msg s)) x y = elemAt (b s) x y))"
proof -
  have 1: "computeNumericalFluxes rs s = Inr s1 \<longrightarrow> b s1 = b s"
    by (auto simp: computeNumericalFluxes_eq xSwept_def ySwept_def split: if_splits)
  have 2: "updateUnknowns dt s = Inr s2 \<longrightarrow> b s2 = b s"
    by (auto simp: updateUnknowns_def updateLoop_eq split: if_splits)
  have 3: "applyBoundaryConditions s = Inr s3 \<longrightarrow> b s3 = b s"
    using applyBoundaryConditions_b by blast
  have 4: "wf_block s \<longrightarrow>
      (\<forall>x\<in>{1..nx s}. \<forall>y\<in>{1..ny s}.
         elemAt (b (applyBoundaryBathymetry s)) x y = elemAt (b s) x y \<and>
         elemAt (b (processCopyLayer msg s)) x y = elemAt (b s) x y)"
    using applyBoundaryBathymetry_interior [of s] processCopyLayer_interior [of s]
    by (simp add: keepsInterior_def)
  show ?thesis using 1 2 3 4 by blast
qed

section \<open>Ghost cells and copy layers on the example block\<close>

lemma ex_bc_run:
  "map_sum id (\<lambda>s'. (cells s' (0, 1), cells s' (1, 0), cells s' (3, 1)))
     (applyBoundaryConditions exBlock) = Inr ((5, - 1, 4), (5, 1, 4), (11, 1, 4))"
  by code_simp

theorem applyBoundaryConditions_ghosts_witness:
  "wf_block exBlock \<and> 1 \<le> nx exBlock \<and> 1 \<le> ny exBlock \<and>
   map_sum id (\<lambda>s'. (cells s' (0, 1), cells s' (1, 0), cells s' (3, 1)))
     (applyBoundaryConditions exBlock) =
   Inr (wallMirror BND_LEFT (cells exBlock (1, 1)), cells exBlock (1, 1), cells exBlock (3, 1)) \<and>
   wallMirror BND_LEFT (cells exBlock (1, 1)) = (5, - 1, 4)"
proof -
  obtain s' where r: "applyBoundaryConditions exBlock = Inr s'"
    using ex_bc_run by (cases "applyBoundaryConditions exBlock") auto
  have n: "1 \<le> nx exBlock" "1 \<le> ny exBlock" by (simp_all add: exBlock_def)
  have k: "(1::nat) \<le> 1" "1 \<le> stripLength exBlock BND_LEFT" "1 \<le> stripLength exBlock BND_BOTTOM"
    "1 \<le> stripLength exBlock BND_RIGHT"
    by (simp_all add: stripLength_def exBlock_def)
  have ty: "boundaryType exBlock BND_LEFT = WALL" "boundaryType exBlock BND_BOTTOM = OUTFLOW"
    "boundaryType exBlock BND_RIGHT = CONNECT"
    by (simp_all add: exBlock_def)
  note t = applyBoundaryConditions_ghosts [OF wf_exBlock n r k(1)]
  have l: "cells s' (0, 1) = wallMirror BND_LEFT (cells exBlock (1, 1))"
    using t [OF k(2)] ty by (simp add: ghostCell_def innerCell_def)
  have bo: "cells s' (1, 0) = cells exBlock (1, 1)"
    using t [OF k(3)] ty by (simp add: ghostCell_def innerCell_def)
  have ri: "cells s' (3, 1) = cells exBlock (3, 1)"
    using t [OF k(4)] ty by (simp add: ghostCell_def innerCell_def exBlock_def)
  have v: "wallMirror BND_LEFT (cells exBlock (1, 1)) = (5, - 1, 4)"
    by (simp add: wallMirror_def cells_def exBlock_def elemAt_def)
  show ?thesis
    using wf_exBlock n r l bo ri v by simp
qed

text \<open>
  Claim C6. \<open>processCopyLayer\<close> writes a message into the ghost strip opposite to the
  message's tag, and only when that edge of the receiver is \<open>CONNECT\<close>: a message tagged
  \<open>RIGHT\<close>, with the receiver's \<open>LEFT\<close> boundary \<open>CONNECT\<close>, fills \<open>h\<close>, \<open>hu\<close>, \<open>hv\<close>
  (and \<open>b\<close> exactly when \<open>containsBathymetry\<close> is true) of column \<open>x = 0\<close>,
  \<open>y\<close> in \<open>[1, ny]\<close> with the entries of the message arrays in order; a \<open>LEFT\<close>-tagged
  message fills column \<open>x = nx + 1\<close>, a \<open>TOP\<close>-tagged message row \<open>y = 0\<close> and a
  \<open>BOTTOM\<close>-tagged message row \<open>y = ny + 1\<close>, for \<open>x\<close> in \<open>[1, nx]\<close>; with the opposite
  edge not \<open>CONNECT\<close> the block is left as it was. The message arrays hold the entries
  that are read.
\<close>

theorem processCopyLayer_fills:
  assumes "wf_block s" and "layer_fits (stripLength s (opposite (boundary msg))) msg"
  shows "(boundary msg = BND_RIGHT \<and> boundaryType s BND_LEFT = CONNECT \<longrightarrow>
            (\<forall>i<ny s. filled msg s (processCopyLayer msg s) 0 (i + 1) i)) \<and>
         (boundary msg = BND_LEFT \<and> boundaryType s BND_RIGHT = CONNECT \<longrightarrow>
            (\<forall>i<ny s. filled msg s (processCopyLayer msg s) (nx s + 1) (i + 1) i)) \<and>
         (boundary msg = BND_TOP \<and> boundaryType s BND_BOTTOM = CONNECT \<longrightarrow>
            (\<forall>i<nx s. filled msg s (processCopyLayer msg s) (i + 1) 0 i)) \<and>
         (boundary msg = BND_BOTTOM \<and> boundaryType s BND_TOP = CONNECT \<longrightarrow>
            (\<forall>i<nx s. filled msg s (processCopyLayer msg s) (i + 1) (ny s + 1) i)) \<and>
         (boundaryType s (opposite (boundary msg)) \<noteq> CONNECT \<longrightarrow> processCopyLayer msg s = s)"
proof -
  have a: "\<forall>i<ny s. filled msg s (received msg (\<lambda>i. (0, i + 1)) (ny s) s) 0 (i + 1) i"
    using received_filled [OF assms(1), where g = "\<lambda>i. (0, i + 1)" and n = "ny s" and msg = msg]
    by (simp add: inj_on_def)
  have b': "\<forall>i<ny s. filled msg s (received msg (\<lambda>i. (nx s + 1, i + 1)) (ny s) s) (nx s + 1) (i + 1) i"
    using received_filled [OF assms(1), where g = "\<lambda>i. (nx s + 1, i + 1)" and n = "ny s" and msg = msg]
    by (simp add: inj_on_def)
  have c: "\<forall>i<nx s. filled msg s (received msg (\<lambda>i. (i + 1, 0)) (nx s) s) (i + 1) 0 i"
    using received_filled [OF assms(1), where g = "\<lambda>i. (i + 1, 0)" and n = "nx s" and msg = msg]
    by (simp add: inj_on_def)
  have d: "\<forall>i<nx s. filled msg s (received msg (\<lambda>i. (i + 1, ny s + 1)) (nx s) s) (i + 1) (ny s + 1) i"
    using received_filled [OF assms(1), where g = "\<lambda>i. (i + 1, ny s + 1)" and n = "nx s" and msg = msg]
    by (simp add: inj_on_def)
  have e: "boundaryType s (opposite (boundary msg)) \<noteq> CONNECT \<longrightarrow> processCopyLayer msg s = s"
    by (cases "boundary msg") (simp_all add: processCopyLayer_eq opposite_def)
  show ?thesis
    using a b' c d e by (simp add: processCopyLayer_eq)
qed

theorem processCopyLayer_fills_witness:
  "wf_block exBlock \<and> boundary exLayer = BND_LEFT \<and> boundaryType exBlock BND_RIGHT = CONNECT \<and>
   layer_fits (stripLength exBlock (opposite (boundary exLayer))) exLayer \<and>
   elemAt (h (processCopyLayer exLayer exBlock)) 3 1 = 20 \<and>
   elemAt (hu (processCopyLayer exLayer exBlock)) 3 1 = 21 \<and>
   elemAt (hv (processCopyLayer exLayer exBlock)) 3 1 = 22 \<and>
   elemAt (b (processCopyLayer exLayer exBlock)) 3 1 = - 20"
proof -
  have p: "boundary exLayer = BND_LEFT" "boundaryType exBlock BND_RIGHT = CONNECT"
    "layer_fits (stripLength exBlock (opposite (boundary exLayer))) exLayer"
    by (simp_all add: exLayer_def exBlock_def layer_fits_def stripLength_def opposite_def)
  have "\<forall>i<ny exBlock. filled exLayer exBlock (processCopyLayer exLayer exBlock) (nx exBlock + 1) (i + 1) i"
    using processCopyLayer_fills [OF wf_exBlock p(3)] p(1,2) by blast
  then have "filled exLayer exBlock (processCopyLayer exLayer exBlock) (nx exBlock + 1) (0 + 1) 0"
    by (simp add: exBlock_def)
  then have "filled exLayer exBlock (processCopyLayer exLayer exBlock) 3 1 0"
    by (simp add: exBlock_def)
  then show ?thesis
    using wf_exBlock p by (simp add: filled_def exLayer_def)
qed




theorem bathymetry_unchanged_witness:
  "map_sum id b (computeNumericalFluxes exRiemann exBlock) = Inr (b exBlock) \<and>
   map_sum id b (updateUnknowns (1 / 10) exBlock) = Inr (b exBlock) \<and>
   map_sum id b (applyBoundaryConditions exBlock) = Inr (b exBlock) \<and>
   wf_block exBlock \<and>
   elemAt (b (applyBoundaryBathymetry exBlock)) 2 1 = - 8 \<and>
   elemAt (b (processCopyLayer exLayer exBlock)) 2 1 = - 8"
proof -
  obtain s1 where r1: "computeNumericalFluxes exRiemann exBlock = Inr s1"
    using ex_fluxes_run by (cases "computeNumericalFluxes exRiemann exBlock") auto
  have r2: "updateUnknowns (1 / 10) exBlock = Inr (updateLoop (1 / 10) exBlock)"
    by (simp add: updateUnknowns_def exBlock_def)
  obtain s3 where r3: "applyBoundaryConditions exBlock = Inr s3"
    using ex_bc_run by (cases "applyBoundaryConditions exBlock") auto
  note t = bathymetry_unchanged [of exRiemann exBlock s1 "1 / 10" "updateLoop (1 / 10) exBlock" s3 exLayer]
  have i: "(2::nat) \<in> {1..nx exBlock}" "(1::nat) \<in> {1..ny exBlock}" by (simp_all add: exBlock_def)
  have v: "elemAt (b exBlock) 2 1 = - 8" by (simp add: exBlock_def elemAt_def)
  have "elemAt (b (applyBoundaryBathymetry exBlock)) 2 1 = elemAt (b exBlock) 2 1 \<and>
        elemAt (b (processCopyLayer exLayer exBlock)) 2 1 = elemAt (b exBlock) 2 1"
    using t wf_exBlock i by blast
  then show ?thesis
    using t r1 r2 r3 wf_exBlock v by simp
qed

section \<open>The constructor\<close>

lemma fold_keeps:
  assumes "\<And>x t. P (f x t) = P t"
  shows "P (fold f xs t) = P t"
  using assms by (induction xs arbitrary: t) simp_all

lemma initCell_keeps: "clockAndOutput (initCell sc s i j t) = clockAndOutput t"
  by (simp add: initCell_def clockAndOutput_def Let_def)

lemma edge_keeps:
  "clockAndOutput (leftGhosted s t) = clockAndOutput t"
  "clockAndOutput (rightGhosted s t) = clockAndOutput t"
  "clockAndOutput (bottomGhosted s t) = clockAndOutput t"
  "clockAndOutput (topGhosted s t) = clockAndOutput t"
  "clockAndOutput (cornersGhosted s t) = clockAndOutput t"
  by (simp_all add: leftGhosted_def rightGhosted_def bottomGhosted_def topGhosted_def
      cornersGhosted_def cornerGhost_eq ghosted_def clockAndOutput_def)

lemma bathStep_keeps: "clockAndOutput (bathStep c G I js t) = clockAndOutput t"
  by (simp add: bathStep_def clockAndOutput_def)

lemma applyBoundaryConditions_keeps:
  assumes "applyBoundaryConditions t = Inr t'"
  shows "clockAndOutput t' = clockAndOutput t"
  using assms by (auto simp: applyBoundaryConditions_eq edge_keeps split: if_splits)

lemma applyBoundaryBathymetry_keeps: "clockAndOutput (applyBoundaryBathymetry t) = clockAndOutput t"
  unfolding applyBoundaryBathymetry_eq by (simp only: bathStep_keeps)

lemma initScenario_keeps:
  assumes "initScenario sc boundaries s = Inr s1"
  shows "clockAndOutput s1 = clockAndOutput s"
proof -
  let ?s1 = "fold (\<lambda>i. fold (\<lambda>j. initCell sc s i j) [1..<nx s + 1]) [1..<ny s + 1] s"
  let ?s2 = "?s1\<lparr>boundaryType := boundaries\<rparr>"
  have k1: "clockAndOutput ?s1 = clockAndOutput s"
    by (intro fold_keeps initCell_keeps)
  have k2: "clockAndOutput ?s2 = clockAndOutput s"
    using k1 by (simp add: clockAndOutput_def)
  obtain s3 where s3: "applyBoundaryConditions ?s2 = Inr s3" and s1: "s1 = applyBoundaryBathymetry s3"
    using assms by (auto simp: initScenario_def Let_def andThen_def split: sum.splits)
  have k3: "clockAndOutput s3 = clockAndOutput ?s2"
    using s3 by (rule applyBoundaryConditions_keeps)
  have k4: "clockAndOutput s1 = clockAndOutput s3"
    unfolding s1 by (rule applyBoundaryBathymetry_keeps)
  show ?thesis using k2 k3 k4 by (simp only:)
qed

text \<open>
  The schedule the constructor computes: its length, its first entry, and the rounded
  sum that gives every later entry from the one before.
\<close>

lemma schedule_fold:
  assumes "m \<le> length c0" and "c0 ! 0 = d" and "1 \<le> m"
  shows "length (fold (\<lambda>i c. c[i := float32 (c ! (i - 1) + d)]) [1..<m] c0) = length c0 \<and>
         fold (\<lambda>i c. c[i := float32 (c ! (i - 1) + d)]) [1..<m] c0 ! 0 = d \<and>
         (\<forall>k. 0 < k \<and> k < m \<longrightarrow>
            fold (\<lambda>i c. c[i := float32 (c ! (i - 1) + d)]) [1..<m] c0 ! k =
            float32 (fold (\<lambda>i c. c[i := float32 (c ! (i - 1) + d)]) [1..<m] c0 ! (k - 1) + d))"
  using assms
proof (induction m)
  case 0
  then show ?case by simp
next
  case (Suc m)
  let ?f = "\<lambda>i c. c[i := float32 (c ! (i - 1) + d)]"
  show ?case
  proof (cases "m = 0")
    case True
    then show ?thesis using Suc.prems by simp
  next
    case False
    then have m: "1 \<le> m" by simp
    let ?c = "fold ?f [1..<m] c0"
    let ?r = "?c[m := float32 (?c ! (m - 1) + d)]"
    have ih: "length ?c = length c0" "?c ! 0 = d"
      "\<forall>k. 0 < k \<and> k < m \<longrightarrow> ?c ! k = float32 (?c ! (k - 1) + d)"
      using Suc.IH [OF _ Suc.prems(2) m] Suc.prems(1) by simp_all
    have st: "fold ?f [1..<Suc m] c0 = ?r"
      using m by simp
    have lm: "m < length ?c" using Suc.prems(1) ih(1) by simp
    have old: "?r ! j = ?c ! j" if "j < m" for j
      using that by simp
    have new: "?r ! m = float32 (?c ! (m - 1) + d)"
      using lm by simp
    have r0: "?r ! 0 = d" using old [of 0] m ih(2) by simp
    have rk: "?r ! k = float32 (?r ! (k - 1) + d)" if "0 < k" "k < Suc m" for k
    proof (cases "k = m")
      case True
      have "?r ! (m - 1) = ?c ! (m - 1)" using m by (intro old) simp
      then show ?thesis unfolding True using new by (simp only:)
    next
      case False
      then have km: "k < m" using that by simp
      have "?r ! k = ?c ! k" using km by (rule old)
      moreover have "?r ! (k - 1) = ?c ! (k - 1)" using km by (intro old) simp
      moreover have "?c ! k = float32 (?c ! (k - 1) + d)" using ih(3) that(1) km by blast
      ultimately show ?thesis by (simp only:)
    qed
    have len: "length ?r = length c0" using ih(1) by simp
    show ?thesis unfolding st using len r0 rk by blast
  qed
qed

lemma checkpointSchedule_Inr:
  assumes "checkpointSchedule duration n = Inr c"
  shows "0 < n" and "length c = nat n"
    and "c ! 0 = float32 (duration / float32 (real_of_int n))"
    and "\<forall>k. 0 < k \<and> k < nat n \<longrightarrow>
           c ! k = float32 (c ! (k - 1) + float32 (duration / float32 (real_of_int n)))"
proof -
  show n: "0 < n" using assms by (simp add: checkpointSchedule_def split: if_splits)
  let ?d = "float32 (duration / float32 (real_of_int n))"
  let ?c0 = "(replicate (nat n) 0)[0 := ?d]"
  have c: "c = fold (\<lambda>i c. c[i := float32 (c ! (i - 1) + ?d)]) [1..<nat n] ?c0"
    using assms n by (simp add: checkpointSchedule_def Let_def split: if_splits)
  have "nat n \<le> length ?c0" "?c0 ! 0 = ?d" "1 \<le> nat n" using n by simp_all
  note f = schedule_fold [OF this]
  show "length c = nat n" using f by (simp add: c)
  show "c ! 0 = ?d" using f unfolding c by blast
  show "\<forall>k. 0 < k \<and> k < nat n \<longrightarrow> c ! k = float32 (c ! (k - 1) + ?d)"
    using f unfolding c by blast
qed

text \<open>
  When the count and every value \<open>(k+1) * duration / n\<close> are single-precision numbers,
  no sum is rounded and the entries are these values.
\<close>

lemma schedule_exact:
  assumes "c ! 0 = float32 (duration / float32 (real_of_int n))"
    and "\<forall>k. 0 < k \<and> k < m \<longrightarrow>
           c ! k = float32 (c ! (k - 1) + float32 (duration / float32 (real_of_int n)))"
    and "float32 (real_of_int n) = real_of_int n"
    and "\<forall>k<m. float32 ((real k + 1) * duration / real_of_int n) = (real k + 1) * duration / real_of_int n"
    and "k < m"
  shows "c ! k = (real k + 1) * duration / real_of_int n"
proof -
  have "0 < m" using assms(5) by simp
  then have "float32 ((real 0 + 1) * duration / real_of_int n) = (real 0 + 1) * duration / real_of_int n"
    using assms(4) by blast
  then have d: "float32 (duration / float32 (real_of_int n)) = duration / real_of_int n"
    by (simp add: assms(3))
  show ?thesis
    using assms(5)
  proof (induction k)
    case 0
    then show ?case using assms(1) d by simp
  next
    case (Suc k)
    have "c ! Suc k = float32 (c ! k + duration / real_of_int n)"
      using assms(2) Suc.prems d by simp
    also have "c ! k = (real k + 1) * duration / real_of_int n"
      using Suc by simp
    also have "(real k + 1) * duration / real_of_int n + duration / real_of_int n
               = (real (Suc k) + 1) * duration / real_of_int n"
      by (simp add: algebra_simps add_divide_distrib)
    also have "float32 \<dots> = (real (Suc k) + 1) * duration / real_of_int n"
      using assms(4) Suc.prems by blast
    finally show ?case .
  qed
qed

lemma construct_parts:
  assumes "construct cfg sc nx' ny' dx' dy' originX' originY' posX posY boundaries = Inr s"
  shows "checkpointSchedule (simulationDuration cfg) (checkpointCount cfg) = Inr (checkpointInstantOfTime s)"
    and "currentSimulationTime s = 0" and "written s = [(h s, hu s, hv s, 0)]"
proof -
  let ?s0 = "(SWE_Block_new nx' ny' dx' dy' originX' originY')
               \<lparr>currentSimulationTime := 0, currentCheckpoint := 0,
                neighbourIndex := neighbours cfg posX posY\<rparr>"
  obtain c s1 where c: "checkpointSchedule (simulationDuration cfg) (checkpointCount cfg) = Inr c"
    and s1: "initScenario sc boundaries (?s0\<lparr>checkpointInstantOfTime := c\<rparr>) = Inr s1"
    and s: "s = writeTimestep s1"
    using assms by (auto simp: construct_def Let_def andThen_def split: sum.splits)
  have "clockAndOutput s1 = clockAndOutput (?s0\<lparr>checkpointInstantOfTime := c\<rparr>)"
    using s1 by (rule initScenario_keeps)
  then have k: "checkpointInstantOfTime s1 = c" "currentSimulationTime s1 = 0" "written s1 = []"
    by (simp_all add: clockAndOutput_def SWE_Block_new_def)
  show "checkpointSchedule (simulationDuration cfg) (checkpointCount cfg) = Inr (checkpointInstantOfTime s)"
    using c k by (simp add: s writeTimestep_def)
  show "currentSimulationTime s = 0" "written s = [(h s, hu s, hv s, 0)]"
    using k by (simp_all add: s writeTimestep_def)
qed

text \<open>
  The constructor returns when the schedule is finite and the four boundary types are ones
  the boundary code handles.
\<close>

lemma construct_succeeds:
  assumes "checkpointSchedule (simulationDuration cfg) (checkpointCount cfg) = Inr c"
    and "\<forall>e. boundaries e \<noteq> UNKNOWN_TYPE"
  shows "\<exists>s. construct cfg sc nx' ny' dx' dy' originX' originY' posX posY boundaries = Inr s"
proof -
  have i: "\<exists>s1. initScenario sc boundaries t = Inr s1" for t
    using assms(2)
    by (simp add: initScenario_def Let_def andThen_def applyBoundaryConditions_eq knownTypes_def)
  obtain s1 where "initScenario sc boundaries
      ((SWE_Block_new nx' ny' dx' dy' originX' originY')
         \<lparr>currentSimulationTime := 0, currentCheckpoint := 0,
          neighbourIndex := neighbours cfg posX posY\<rparr>\<lparr>checkpointInstantOfTime := c\<rparr>) = Inr s1"
    using i by blast
  then show ?thesis
    using assms(1) by (simp add: construct_def Let_def andThen_def)
qed

text \<open>
  Two schedules: duration \<open>10\<close> with \<open>4\<close> checkpoints, where every value is a
  single-precision number, and duration \<open>1\<close> with \<open>10\<close> checkpoints, where \<open>1/10\<close> is not.
\<close>

lemma ex_floats:
  "float32 4 = 4" "float32 (5 / 2) = 5 / 2" "float32 5 = 5" "float32 (15 / 2) = 15 / 2"
  "float32 10 = 10"
  by code_simp+

lemma ex_schedule: "checkpointSchedule 10 4 = Inr [5 / 2, 5, 15 / 2, 10]"
  by code_simp

lemma ex_tenths_schedule:
  "checkpointSchedule 1 10 =
     Inr [13421773 / 134217728, 13421773 / 67108864, 5033165 / 16777216, 13421773 / 33554432,
          1 / 2, 5033165 / 8388608, 2936013 / 4194304, 6710887 / 8388608, 1887437 / 2097152,
          8388609 / 8388608]"
  by code_simp

text \<open>
  Claim C8, as amended. The claim reads: after construction
  \<open>checkpointInstantOfTime[k] = (k+1) * simulationDuration / checkpointCount\<close> for every
  \<open>k\<close> in \<open>[0, checkpointCount)\<close>, and the initial state is written at \<open>t = 0\<close> before
  the step loop starts. The code does not evaluate that formula: it adds the
  single-precision quotient \<open>simulationDuration / checkpointCount\<close> repeatedly, rounding
  every sum. So, when the constructor returns: the count is positive and the schedule has
  \<open>checkpointCount\<close> entries; entry \<open>0\<close> is the rounded quotient; every later entry is the
  rounded sum of the entry before it and entry \<open>0\<close>; the entries equal
  \<open>(k+1) * simulationDuration / checkpointCount\<close> whenever the count and each of these
  values are single-precision numbers; the simulation time is \<open>0\<close>, and the writer has
  been given exactly one time step, the fields of the constructed block at \<open>t = 0\<close>.
  (The step loop is run by the caller once the constructor has returned.)
\<close>

theorem construct_schedule:
  assumes "construct cfg sc nx' ny' dx' dy' originX' originY' posX posY boundaries = Inr s"
  shows "0 < checkpointCount cfg \<and>
         length (checkpointInstantOfTime s) = nat (checkpointCount cfg) \<and>
         checkpointInstantOfTime s ! 0 =
           float32 (simulationDuration cfg / float32 (real_of_int (checkpointCount cfg))) \<and>
         (\<forall>k. 0 < k \<and> k < nat (checkpointCount cfg) \<longrightarrow>
            checkpointInstantOfTime s ! k =
              float32 (checkpointInstantOfTime s ! (k - 1) + checkpointInstantOfTime s ! 0)) \<and>
         (float32 (real_of_int (checkpointCount cfg)) = real_of_int (checkpointCount cfg) \<and>
          (\<forall>k<nat (checkpointCount cfg).
             float32 ((real k + 1) * simulationDuration cfg / real_of_int (checkpointCount cfg)) =
               (real k + 1) * simulationDuration cfg / real_of_int (checkpointCount cfg)) \<longrightarrow>
          (\<forall>k<nat (checkpointCount cfg).
             checkpointInstantOfTime s ! k =
               (real k + 1) * simulationDuration cfg / real_of_int (checkpointCount cfg))) \<and>
         currentSimulationTime s = 0 \<and> written s = [(h s, hu s, hv s, 0)]"
proof -
  note p = construct_parts [OF assms]
  note c = checkpointSchedule_Inr [OF p(1)]
  have r: "\<forall>k. 0 < k \<and> k < nat (checkpointCount cfg) \<longrightarrow>
            checkpointInstantOfTime s ! k =
              float32 (checkpointInstantOfTime s ! (k - 1) + checkpointInstantOfTime s ! 0)"
    using c(4) unfolding c(3) .
  have e: "checkpointInstantOfTime s ! k =
             (real k + 1) * simulationDuration cfg / real_of_int (checkpointCount cfg)"
    if "float32 (real_of_int (checkpointCount cfg)) = real_of_int (checkpointCount cfg)"
      and "\<forall>k<nat (checkpointCount cfg).
             float32 ((real k + 1) * simulationDuration cfg / real_of_int (checkpointCount cfg)) =
               (real k + 1) * simulationDuration cfg / real_of_int (checkpointCount cfg)"
      and "k < nat (checkpointCount cfg)" for k
    using schedule_exact [OF c(3) c(4) that] .
  show ?thesis
    using c(1,2,3) r e p(2,3) by blast
qed

theorem construct_schedule_witness:
  "map_sum id (\<lambda>s. (length (checkpointInstantOfTime s), checkpointInstantOfTime s ! 0,
                     checkpointInstantOfTime s ! 1, checkpointInstantOfTime s ! 3,
                     currentSimulationTime s, written s = [(h s, hu s, hv s, 0)]))
     (construct exConfig exScenario 2 1 1 4 0 0 0 0 (\<lambda>e. WALL)) =
   Inr (4, float32 (10 / float32 4), float32 (5 / 2 + 5 / 2), 10, 0, True) \<and>
   float32 (10 / float32 4) = 5 / 2 \<and> float32 (5 / 2 + 5 / 2) = 5"
proof -
  have n: "nat (checkpointCount exConfig) = 4" "simulationDuration exConfig = 10"
    "real_of_int (checkpointCount exConfig) = 4"
    by (simp_all add: exConfig_def)
  have m: "checkpointCount exConfig = 4"
    by (simp add: exConfig_def)
  have "\<exists>s. construct exConfig exScenario 2 1 1 4 0 0 0 0 (\<lambda>e. WALL) = Inr s"
  proof (rule construct_succeeds)
    show "checkpointSchedule (simulationDuration exConfig) (checkpointCount exConfig) =
            Inr [5 / 2, 5, 15 / 2, 10]"
      unfolding n m by (rule ex_schedule)
    show "\<forall>e. (\<lambda>e. WALL) e \<noteq> UNKNOWN_TYPE" by simp
  qed
  then obtain s where r: "construct exConfig exScenario 2 1 1 4 0 0 0 0 (\<lambda>e. WALL) = Inr s"
    by blast
  note t = construct_schedule [OF r, unfolded n]
  note l = t [THEN conjunct2, THEN conjunct1]
  note c0 = t [THEN conjunct2, THEN conjunct2, THEN conjunct1]
  note rec = t [THEN conjunct2, THEN conjunct2, THEN conjunct2, THEN conjunct1]
  note ex = t [THEN conjunct2, THEN conjunct2, THEN conjunct2, THEN conjunct2, THEN conjunct1]
  note o = t [THEN conjunct2, THEN conjunct2, THEN conjunct2, THEN conjunct2, THEN conjunct2]
  have f: "float32 (10 / float32 4) = 5 / 2" "float32 (5 / 2 + 5 / 2) = 5"
    by (simp_all add: ex_floats)
  have x: "float32 ((real k + 1) * 10 / 4) = (real k + 1) * 10 / 4" if "k < 4" for k
  proof -
    have "k = 0 \<or> k = 1 \<or> k = 2 \<or> k = 3" using that by arith
    then show ?thesis
    proof (elim disjE)
      assume "k = 0" then show ?thesis by (simp add: ex_floats)
    next
      assume "k = 1" then show ?thesis by (simp add: ex_floats)
    next
      assume "k = 2" then show ?thesis by (simp add: ex_floats)
    next
      assume "k = 3" then show ?thesis by (simp add: ex_floats)
    qed
  qed
  have "0 < (1::nat) \<and> (1::nat) < 4" by simp
  then have "checkpointInstantOfTime s ! 1 =
               float32 (checkpointInstantOfTime s ! (1 - 1) + checkpointInstantOfTime s ! 0)"
    by (rule rec [rule_format])
  then have c1: "checkpointInstantOfTime s ! 1 = float32 (5 / 2 + 5 / 2)"
    by (simp add: c0 f(1))
  have "float32 4 = 4 \<and> (\<forall>k<4. float32 ((real k + 1) * 10 / 4) = (real k + 1) * 10 / 4)"
    using x ex_floats(1) by blast
  with ex have a: "\<forall>k<4. checkpointInstantOfTime s ! k = (real k + 1) * 10 / 4"
    by (rule mp)
  have "(3::nat) < 4" by simp
  then have "checkpointInstantOfTime s ! 3 = (real 3 + 1) * 10 / 4"
    by (rule a [rule_format])
  then have c3: "checkpointInstantOfTime s ! 3 = 10"
    by simp
  show ?thesis
    unfolding r using l c0 c1 c3 o f by simp
qed

text \<open>
  The claim as stated fails for duration \<open>1\<close> and \<open>10\<close> checkpoints: the last entry of
  the schedule is \<open>8388609 / 8388608\<close> (\<open>1.00000012\<close>), where
  \<open>(9+1) * simulationDuration / checkpointCount = 1\<close>.
\<close>

theorem construct_schedule_counterexample:
  "map_sum id (\<lambda>s. checkpointInstantOfTime s ! 9)
     (construct exTenths exScenario 2 1 1 4 0 0 0 0 (\<lambda>e. WALL)) = Inr (8388609 / 8388608) \<and>
   (9::nat) < nat (checkpointCount exTenths) \<and>
   (real 9 + 1) * simulationDuration exTenths / real_of_int (checkpointCount exTenths) = 1 \<and>
   (8388609 / 8388608 :: real) \<noteq> 1"
proof -
  have n: "simulationDuration exTenths = 1" "checkpointCount exTenths = 10"
    by (simp_all add: exTenths_def)
  let ?c = "[13421773 / 134217728, 13421773 / 67108864, 5033165 / 16777216,
             13421773 / 33554432, 1 / 2, 5033165 / 8388608, 2936013 / 4194304,
             6710887 / 8388608, 1887437 / 2097152, 8388609 / 8388608 :: real]"
  have c: "checkpointSchedule (simulationDuration exTenths) (checkpointCount exTenths) = Inr ?c"
    unfolding n by (rule ex_tenths_schedule)
  have "\<exists>s. construct exTenths exScenario 2 1 1 4 0 0 0 0 (\<lambda>e. WALL) = Inr s"
  proof (rule construct_succeeds)
    show "checkpointSchedule (simulationDuration exTenths) (checkpointCount exTenths) = Inr ?c"
      by (rule c)
    show "\<forall>e. (\<lambda>e. WALL) e \<noteq> UNKNOWN_TYPE" by simp
  qed
  then obtain s where r: "construct exTenths exScenario 2 1 1 4 0 0 0 0 (\<lambda>e. WALL) = Inr s"
    by blast
  have "checkpointInstantOfTime s = ?c"
    using construct_parts(1) [OF r] c by simp
  then have v: "checkpointInstantOfTime s ! 9 = 8388609 / 8388608"
    by simp
  have a: "(9::nat) < nat (checkpointCount exTenths)"
    "(real 9 + 1) * simulationDuration exTenths / real_of_int (checkpointCount exTenths) = 1"
    "(8388609 / 8388608 :: real) \<noteq> 1"
    unfolding n by simp_all
  show ?thesis
    unfolding r using v a by simp
qed

section \<open>Well-formed blocks\<close>

text \<open>
  The constructor returns a well-formed block when the cell sizes are positive, and every
  operation of a time step returns a well-formed block when given one.
\<close>

lemma wf_shape: "shape t = shape s \<Longrightarrow> wf_block t = wf_block s"
  by (simp add: shape_def gshape_def wf_block_def grid_ok_def)

lemma gshape_elemSet: "gshape (elemSet F x y v) = gshape F"
  by (simp add: gshape_def elemSet_def)

lemma gshape_cellFold: "gshape (cellFold g i m ps F) = gshape F"
  by (induction ps arbitrary: F) (simp_all add: cellFold_Nil cellFold_Cons gshape_elemSet)

lemma shape_ghosted: "shape (ghosted G I mu mv js t) = shape t"
  by (simp add: shape_def ghosted_def gshape_cellFold)

lemma shape_bathStep: "shape (bathStep c G I js t) = shape t"
  by (simp add: shape_def bathStep_def gshape_cellFold)

lemma shape_received: "shape (received msg g n t) = shape t"
  by (simp add: shape_def received_def gshape_cellFold)

lemma shape_initCell: "shape (initCell sc s i j t) = shape t"
  by (simp add: shape_def initCell_def Let_def gshape_elemSet)

lemma shape_updateLoop: "shape (updateLoop dt s) = shape s"
  by (simp add: updateLoop_eq shape_def gshape_cellFold)

lemma shape_swept: "shape (xSwept rs s t) = shape t" "shape (ySwept rs s t) = shape t"
  by (simp_all add: shape_def xSwept_def ySwept_def gshape_cellFold)

lemma shape_applyBoundaryConditions:
  assumes "applyBoundaryConditions t = Inr t'"
  shows "shape t' = shape t"
  using assms
  by (auto simp: applyBoundaryConditions_eq cornersGhosted_def cornerGhost_eq leftGhosted_def
      rightGhosted_def bottomGhosted_def topGhosted_def shape_ghosted split: if_splits)

lemma shape_applyBoundaryBathymetry: "shape (applyBoundaryBathymetry t) = shape t"
  unfolding applyBoundaryBathymetry_eq by (simp only: shape_bathStep)

lemma shape_processCopyLayer: "shape (processCopyLayer msg t) = shape t"
  by (simp add: processCopyLayer_eq shape_received)

lemma shape_computeNumericalFluxes:
  assumes "computeNumericalFluxes rs s = Inr s'"
  shows "shape s' = shape s"
proof -
  have "shape (t\<lparr>maxTimestep := v\<rparr>) = shape t" for t v by (simp add: shape_def)
  then show ?thesis
    using assms by (auto simp: computeNumericalFluxes_eq shape_swept split: if_splits)
qed

lemma shape_initScenario:
  assumes "initScenario sc boundaries s = Inr s1"
  shows "shape s1 = shape s"
proof -
  let ?s1 = "fold (\<lambda>i. fold (\<lambda>j. initCell sc s i j) [1..<nx s + 1]) [1..<ny s + 1] s"
  let ?s2 = "?s1\<lparr>boundaryType := boundaries\<rparr>"
  have k1: "shape ?s1 = shape s" by (intro fold_keeps shape_initCell)
  have k2: "shape ?s2 = shape ?s1" by (simp add: shape_def)
  obtain s3 where s3: "applyBoundaryConditions ?s2 = Inr s3" and s1: "s1 = applyBoundaryBathymetry s3"
    using assms by (auto simp: initScenario_def Let_def andThen_def split: sum.splits)
  have k3: "shape s3 = shape ?s2" using s3 by (rule shape_applyBoundaryConditions)
  have k4: "shape s1 = shape s3" unfolding s1 by (rule shape_applyBoundaryBathymetry)
  show ?thesis using k1 k2 k3 k4 by (simp only:)
qed

lemma wf_SWE_Block_new:
  "wf_block (SWE_Block_new nx' ny' dx' dy' originX' originY') = (0 < dx' \<and> 0 < dy')"
  by (simp add: wf_block_def SWE_Block_new_def grid_ok_new)

lemma wf_construct:
  assumes "construct cfg sc nx' ny' dx' dy' originX' originY' posX posY boundaries = Inr s"
    and "0 < dx'" and "0 < dy'"
  shows "wf_block s"
proof -
  let ?s0 = "(SWE_Block_new nx' ny' dx' dy' originX' originY')
               \<lparr>currentSimulationTime := 0, currentCheckpoint := 0,
                neighbourIndex := neighbours cfg posX posY\<rparr>"
  obtain c s1 where s1: "initScenario sc boundaries (?s0\<lparr>checkpointInstantOfTime := c\<rparr>) = Inr s1"
    and s: "s = writeTimestep s1"
    using assms(1) by (auto simp: construct_def Let_def andThen_def split: sum.splits)
  have "shape s = shape s1" by (simp add: s writeTimestep_def shape_def)
  also have "\<dots> = shape (?s0\<lparr>checkpointInstantOfTime := c\<rparr>)" using s1 by (rule shape_initScenario)
  also have "\<dots> = shape (SWE_Block_new nx' ny' dx' dy' originX' originY')" by (simp add: shape_def)
  finally show ?thesis using assms(2,3) by (simp add: wf_shape wf_SWE_Block_new)
qed

lemma wf_preserved:
  assumes "wf_block s"
  shows "applyBoundaryConditions s = Inr s1 \<Longrightarrow> wf_block s1"
    and "computeNumericalFluxes rs s = Inr s2 \<Longrightarrow> wf_block s2"
    and "updateUnknowns dt s = Inr s3 \<Longrightarrow> wf_block s3"
    and "wf_block (processCopyLayer msg s)"
    and "wf_block (applyBoundaryBathymetry s)"
    and "wf_block (reduceWaveSpeed m s)"
proof -
  show "applyBoundaryConditions s = Inr s1 \<Longrightarrow> wf_block s1"
    using assms wf_shape [OF shape_applyBoundaryConditions] by blast
  show "computeNumericalFluxes rs s = Inr s2 \<Longrightarrow> wf_block s2"
    using assms wf_shape [OF shape_computeNumericalFluxes] by blast
  show "updateUnknowns dt s = Inr s3 \<Longrightarrow> wf_block s3"
    using assms wf_shape [OF shape_updateLoop, of dt s]
    by (auto simp: updateUnknowns_def split: if_splits)
  show "wf_block (processCopyLayer msg s)"
    using assms wf_shape [OF shape_processCopyLayer] by blast
  show "wf_block (applyBoundaryBathymetry s)"
    using assms wf_shape [OF shape_applyBoundaryBathymetry] by blast
  show "wf_block (reduceWaveSpeed m s)"
    using assms by (simp add: reduceWaveSpeed_def wf_block_def)
qed

end
